theory Spec2Isabelle
  imports Main "HOL-Library.Word"
begin

section \<open>Substitution maps of lib/AST/SubstitutionMap.cpp\<close>

text \<open>
  A shallow embedding of \<^verbatim>\<open>SubstitutionMap\<close>. The build modelled is the one with
  assertions enabled: a failing \<^verbatim>\<open>assert\<close>, a failing \<^verbatim>\<open>cast<>\<close>, an array access
  out of range and a dereference of a null \<^verbatim>\<open>Type\<close> are results \<open>Inl fault\<close>.
  Collaborators that live outside the file (the type substitution primitive, the
  global conformance lookup, the request evaluator, the queries of a generic
  signature) are parameters: fields of the records \<open>GenericSignature\<close> and \<open>Externals\<close>.
\<close>

subsection \<open>Faults\<close>

datatype fault =
    AssertionFailure string
  | NullDereference
  | IndexOutOfBounds
  | BadCast

definition bindR :: "fault + 'a \<Rightarrow> ('a \<Rightarrow> fault + 'b) \<Rightarrow> fault + 'b" where
  "bindR m f = (case m of Inl e \<Rightarrow> Inl e | Inr x \<Rightarrow> f x)"

text \<open>\<^verbatim>\<open>ArrayRef::operator[]\<close>: the index is asserted to be in range.\<close>

definition nth_checked :: "'a list \<Rightarrow> nat \<Rightarrow> fault + 'a" where
  "nth_checked xs i = (if i < length xs then Inr (xs ! i) else Inl IndexOutOfBounds)"

subsection \<open>Types\<close>

text \<open>\<^verbatim>\<open>unsigned\<close> is a 32-bit machine integer.\<close>

type_synonym unsigned = "32 word"

text \<open>
  A generic parameter: its sugared name (absent in the canonical form), whether it
  is a parameter pack, its depth and its index.
\<close>

datatype GenericTypeParam =
  GenericTypeParam (getName: "string option") (isParameterPack: bool)
    (getDepth: unsigned) (getIndex: unsigned)

datatype ArchetypeKind =
    PrimaryArchetype
  | PackArchetype
  | OpaqueTypeArchetype
  | ExistentialArchetype
  | ElementArchetype

text \<open>
  The fragment of the type representation the file inspects. An archetype carries
  its kind, whether it is a root archetype, its interface type and its superclass
  bound. \<open>TypeAliasType\<close> is sugar.
\<close>

datatype ty =
    GenericTypeParamType GenericTypeParam
  | DependentMemberType ty string
  | ArchetypeType ArchetypeKind bool ty "ty option"
  | NominalType string "ty list"
  | ExistentialType string
  | PackType "ty list"
  | PackExpansionType ty ty
  | TypeAliasType string ty
  | ErrorType
  | TypeVariableType nat
  | UnresolvedType
  | UnboundGenericType string

text \<open>\<^verbatim>\<open>Type\<close> is a nullable handle; \<^verbatim>\<open>Type()\<close> is \<open>None\<close>.\<close>

type_synonym Type = "ty option"

definition deref :: "Type \<Rightarrow> fault + ty" where
  "deref t = (case t of None \<Rightarrow> Inl NullDereference | Some x \<Rightarrow> Inr x)"

text \<open>
  The queries of the type representation are declared outside the file, which only
  calls them. Each is modelled on the datatype above; sugar is looked through, as
  \<^verbatim>\<open>is<>\<close> and \<^verbatim>\<open>getAs<>\<close> do.
\<close>

text \<open>Modelled from the spec: \<^verbatim>\<open>getDesugaredType\<close>, the type under the sugar at the top.\<close>

fun getDesugaredType :: "ty \<Rightarrow> ty" where
  "getDesugaredType (TypeAliasType n t) = getDesugaredType t"
| "getDesugaredType t = t"

text \<open>Modelled from the spec: \<^verbatim>\<open>getCanonicalType\<close>, the normalized representative of a
  type: sugar is removed throughout, and a generic parameter keeps its pack-ness,
  depth and index only.\<close>

fun getCanonicalType :: "ty \<Rightarrow> ty" where
  "getCanonicalType (GenericTypeParamType g) =
     GenericTypeParamType (GenericTypeParam None (isParameterPack g) (getDepth g) (getIndex g))"
| "getCanonicalType (DependentMemberType b n) = DependentMemberType (getCanonicalType b) n"
| "getCanonicalType (ArchetypeType k r i s) = ArchetypeType k r i s"
| "getCanonicalType (NominalType n ts) = NominalType n (map getCanonicalType ts)"
| "getCanonicalType (ExistentialType n) = ExistentialType n"
| "getCanonicalType (PackType ts) = PackType (map getCanonicalType ts)"
| "getCanonicalType (PackExpansionType p c) =
     PackExpansionType (getCanonicalType p) (getCanonicalType c)"
| "getCanonicalType (TypeAliasType n t) = getCanonicalType t"
| "getCanonicalType ErrorType = ErrorType"
| "getCanonicalType (TypeVariableType n) = TypeVariableType n"
| "getCanonicalType UnresolvedType = UnresolvedType"
| "getCanonicalType (UnboundGenericType n) = UnboundGenericType n"

text \<open>Modelled from the spec: \<^verbatim>\<open>isEqual\<close>, equality of the canonical types.\<close>

definition isEqual :: "ty \<Rightarrow> ty \<Rightarrow> bool" where
  "isEqual a b = (getCanonicalType a = getCanonicalType b)"

text \<open>Modelled from the spec: \<^verbatim>\<open>isTypeParameter\<close>, a generic parameter or a member type
  rooted in one.\<close>

fun isTypeParameter :: "ty \<Rightarrow> bool" where
  "isTypeParameter (GenericTypeParamType g) = True"
| "isTypeParameter (DependentMemberType b n) = isTypeParameter b"
| "isTypeParameter (TypeAliasType n t) = isTypeParameter t"
| "isTypeParameter t = False"

text \<open>Modelled from the spec: \<^verbatim>\<open>hasError\<close>, the recursive property "contains an error
  type"; an archetype has it when its superclass bound has it.\<close>

fun hasError :: "ty \<Rightarrow> bool" where
  "hasError ErrorType = True"
| "hasError (DependentMemberType b n) = hasError b"
| "hasError (NominalType n ts) = list_ex hasError ts"
| "hasError (PackType ts) = list_ex hasError ts"
| "hasError (PackExpansionType p c) = (hasError p \<or> hasError c)"
| "hasError (TypeAliasType n t) = hasError t"
| "hasError (ArchetypeType k r i s) = (case s of None \<Rightarrow> False | Some t \<Rightarrow> hasError t)"
| "hasError t = False"

text \<open>Modelled from the spec: \<^verbatim>\<open>hasTypeParameter\<close>, the recursive property "contains a
  generic parameter".\<close>

fun hasTypeParameter :: "ty \<Rightarrow> bool" where
  "hasTypeParameter (GenericTypeParamType g) = True"
| "hasTypeParameter (DependentMemberType b n) = hasTypeParameter b"
| "hasTypeParameter (NominalType n ts) = list_ex hasTypeParameter ts"
| "hasTypeParameter (PackType ts) = list_ex hasTypeParameter ts"
| "hasTypeParameter (PackExpansionType p c) = (hasTypeParameter p \<or> hasTypeParameter c)"
| "hasTypeParameter (TypeAliasType n t) = hasTypeParameter t"
| "hasTypeParameter t = False"

text \<open>Modelled from the spec: \<^verbatim>\<open>is<ArchetypeType>\<close> and \<^verbatim>\<open>getSuperclass\<close> of an
  archetype.\<close>

definition isArchetypeType :: "ty \<Rightarrow> bool" where
  "isArchetypeType t = (case getDesugaredType t of ArchetypeType k r i s \<Rightarrow> True | _ \<Rightarrow> False)"

definition getSuperclass :: "ty \<Rightarrow> Type" where
  "getSuperclass t = (case getDesugaredType t of ArchetypeType k r i s \<Rightarrow> s | _ \<Rightarrow> None)"

text \<open>Modelled from the spec: \<^verbatim>\<open>isExistentialType\<close>.\<close>

definition isExistentialType :: "ty \<Rightarrow> bool" where
  "isExistentialType t = (case getDesugaredType t of ExistentialType n \<Rightarrow> True | _ \<Rightarrow> False)"

text \<open>Modelled from the spec: \<^verbatim>\<open>isTypeVariableOrMember\<close>, a type variable or a member
  type rooted in one.\<close>

fun isTypeVariableOrMember :: "ty \<Rightarrow> bool" where
  "isTypeVariableOrMember (TypeVariableType n) = True"
| "isTypeVariableOrMember (DependentMemberType b n) = isTypeVariableOrMember b"
| "isTypeVariableOrMember (TypeAliasType n t) = isTypeVariableOrMember t"
| "isTypeVariableOrMember t = False"

text \<open>Modelled from the spec: \<^verbatim>\<open>is<UnresolvedType>\<close>, \<^verbatim>\<open>is<UnboundGenericType>\<close> and
  \<^verbatim>\<open>is<PackType>\<close>.\<close>

definition isUnresolvedType :: "ty \<Rightarrow> bool" where
  "isUnresolvedType t = (case getDesugaredType t of UnresolvedType \<Rightarrow> True | _ \<Rightarrow> False)"

definition isUnboundGenericType :: "ty \<Rightarrow> bool" where
  "isUnboundGenericType t =
     (case getDesugaredType t of UnboundGenericType n \<Rightarrow> True | _ \<Rightarrow> False)"

definition isPackType :: "ty \<Rightarrow> bool" where
  "isPackType t = (case getDesugaredType t of PackType ts \<Rightarrow> True | _ \<Rightarrow> False)"

text \<open>Modelled from the spec: \<^verbatim>\<open>getAs<GenericTypeParamType>()\<close>.\<close>

definition getAsGenericTypeParam :: "ty \<Rightarrow> GenericTypeParam option" where
  "getAsGenericTypeParam t =
     (case getDesugaredType t of GenericTypeParamType g \<Rightarrow> Some g | _ \<Rightarrow> None)"

text \<open>Modelled from the spec: \<^verbatim>\<open>PackType::getSingletonPackExpansion\<close>, the wrapping of a
  pack parameter in a singleton pack expansion.\<close>

definition getSingletonPackExpansion :: "ty \<Rightarrow> ty" where
  "getSingletonPackExpansion p = PackType [PackExpansionType p p]"

subsection \<open>Protocols and conformances\<close>

datatype InvertibleProtocolKind = Copyable | Escapable

datatype ProtocolDecl =
  ProtocolDecl (protocolName: string) (getInvertibleProtocolKind: "InvertibleProtocolKind option")

datatype NormalProtocolConformance =
  NormalProtocolConformance (normalId: nat) (hasComputedAssociatedConformances: bool)

datatype ConformanceKind = NormalKind | SelfKind | SpecializedKind | InheritedKind | BuiltinKind

text \<open>A concrete witness: its kind, the type it is bound to, its protocol and its
  root normal conformance.\<close>

datatype ProtocolConformance =
  ProtocolConformance (getKind: ConformanceKind) (getType: ty) (getProtocol: ProtocolDecl)
    (getRootNormalConformance: NormalProtocolConformance)

definition isSelfProtocolConformance :: "ProtocolConformance \<Rightarrow> bool" where
  "isSelfProtocolConformance c = (getKind c = SelfKind)"

text \<open>\<^verbatim>\<open>ProtocolConformanceRef\<close>: invalid, abstract, concrete, or a pack conformance
  holding its pattern conformances.\<close>

datatype ProtocolConformanceRef =
    Invalid
  | Abstract ProtocolDecl
  | Concrete ProtocolConformance
  | Pack ty ProtocolDecl "ProtocolConformanceRef list"

fun isInvalid :: "ProtocolConformanceRef \<Rightarrow> bool" where
  "isInvalid Invalid = True"
| "isInvalid c = False"

fun isAbstract :: "ProtocolConformanceRef \<Rightarrow> bool" where
  "isAbstract (Abstract p) = True"
| "isAbstract c = False"

fun isConcrete :: "ProtocolConformanceRef \<Rightarrow> bool" where
  "isConcrete (Concrete c) = True"
| "isConcrete c = False"

fun isPack :: "ProtocolConformanceRef \<Rightarrow> bool" where
  "isPack (Pack t p cs) = True"
| "isPack c = False"

subsection \<open>Generic signatures\<close>

datatype Requirement =
    Conformance ty ProtocolDecl
  | Superclass ty ty
  | SameType ty ty
  | Layout ty string
  | SameShape ty ty

fun isConformanceRequirement :: "Requirement \<Rightarrow> bool" where
  "isConformanceRequirement (Conformance t p) = True"
| "isConformanceRequirement r = False"

text \<open>
  A generic signature: its parameters and requirements in declared order, and the
  queries the file asks of it. \<open>paramIsCanonical i\<close> is the flag \<^verbatim>\<open>forEachParam\<close>
  passes to its callback for parameter \<open>i\<close>.
\<close>

record GenericSignature =
  getGenericParams :: "GenericTypeParam list"
  getRequirements :: "Requirement list"
  requiresProtocol :: "ty \<Rightarrow> ProtocolDecl \<Rightarrow> bool"
  getConformancePath :: "ty \<Rightarrow> ProtocolDecl \<Rightarrow> (ty \<times> ProtocolDecl) list"
  paramIsCanonical :: "nat \<Rightarrow> bool"

definition getNumConformanceRequirements :: "GenericSignature \<Rightarrow> nat" where
  "getNumConformanceRequirements sig = length (filter isConformanceRequirement (getRequirements sig))"

text \<open>Modelled from the spec: \<^verbatim>\<open>GenericParamKey::findIndexIn\<close>, the position of a
  parameter in the parameter list by its (depth, index) key, and the length of the
  list when no parameter has the key.\<close>

fun findIndexIn :: "unsigned \<times> unsigned \<Rightarrow> GenericTypeParam list \<Rightarrow> nat" where
  "findIndexIn k [] = 0"
| "findIndexIn k (g # gs) =
     (if getDepth g = fst k \<and> getIndex g = snd k then 0 else Suc (findIndexIn k gs))"

text \<open>Modelled from the spec: \<^verbatim>\<open>forEachParam\<close> visits every parameter in declared order
  with the flag telling whether this occurrence is canonical.\<close>

definition forEachParam :: "GenericSignature \<Rightarrow> (GenericTypeParam \<times> bool) list" where
  "forEachParam sig =
     map (\<lambda>i. (getGenericParams sig ! i, paramIsCanonical sig i))
       [0 ..< length (getGenericParams sig)]"

subsection \<open>Storage, substitution maps and the substitution capability\<close>

record Storage =
  st_genericSig :: GenericSignature
  st_numConformanceRequirements :: nat
  st_replacementTypes :: "Type list"
  st_conformances :: "ProtocolConformanceRef list"

text \<open>A substitution map is a nullable pointer to interned storage.\<close>

type_synonym SubstitutionMap = "Storage option"

datatype SubstFlag =
    PreservePackExpansionLevel
  | SubstitutePrimaryArchetypes
  | SubstituteOpaqueArchetypes

type_synonym SubstOptions = "SubstFlag list"

text \<open>\<^verbatim>\<open>InFlightSubstitution\<close>: a type query, a conformance query and the options.\<close>

record InFlightSubstitution =
  subs :: "ty \<Rightarrow> fault + Type"
  lookupConformanceFn :: "ty \<Rightarrow> Type \<Rightarrow> ProtocolDecl \<Rightarrow> fault + ProtocolConformanceRef"
  getOptions :: SubstOptions

definition shouldSubstituteOpaqueArchetypes :: "InFlightSubstitution \<Rightarrow> bool" where
  "shouldSubstituteOpaqueArchetypes IFS = List.member (getOptions IFS) SubstituteOpaqueArchetypes"

text \<open>The request the file asks the evaluator about: \<^verbatim>\<open>ResolveTypeWitnessesRequest{normal}\<close>,
  keyed by the root normal conformance of a witness.\<close>

datatype Request =
  ResolveTypeWitnessesRequest NormalProtocolConformance

text \<open>
  The collaborators outside the file:
  \<^item> \<open>typeSubstIFS\<close> is \<^verbatim>\<open>Type::subst(InFlightSubstitution &)\<close>;
  \<^item> \<open>typeSubstMap\<close> is \<^verbatim>\<open>Type::subst(SubstitutionMap, SubstOptions)\<close>;
  \<^item> \<open>IFS_lookupConformance\<close> is \<^verbatim>\<open>InFlightSubstitution::lookupConformance\<close>;
  \<^item> \<open>globalLookupConformance\<close> is \<^verbatim>\<open>swift::lookupConformance\<close>;
  \<^item> \<open>forMissingOrInvalid\<close> is \<^verbatim>\<open>ProtocolConformanceRef::forMissingOrInvalid\<close>;
  \<^item> \<open>getAssociatedConformance\<close> and \<open>packGetAssociatedConformance\<close> read the
    associated-conformance table of a concrete and of a pack conformance;
  \<^item> \<open>activeRequests\<close> are the requests the evaluator is evaluating;
  \<^item> \<open>conformanceSubst\<close> is \<^verbatim>\<open>ProtocolConformance::subst\<close> and \<open>conformanceRefSubst\<close>
    is \<^verbatim>\<open>ProtocolConformanceRef::subst\<close>;
  \<^item> \<open>transformRec\<close> is \<^verbatim>\<open>Type::transformRec\<close>;
  \<^item> \<open>mapTypeIntoContext\<close> maps a type into the declaration context of a witness;
  \<^item> \<open>VerifyAllSubstitutionMaps\<close> is the language option of that name.
\<close>

record Externals =
  typeSubstIFS :: "InFlightSubstitution \<Rightarrow> ty \<Rightarrow> fault + Type"
  typeSubstMap :: "SubstitutionMap \<Rightarrow> SubstOptions \<Rightarrow> ty \<Rightarrow> fault + Type"
  IFS_lookupConformance ::
    "InFlightSubstitution \<Rightarrow> ty \<Rightarrow> Type \<Rightarrow> ProtocolDecl \<Rightarrow> nat \<Rightarrow> fault + ProtocolConformanceRef"
  globalLookupConformance :: "ty \<Rightarrow> ProtocolDecl \<Rightarrow> ProtocolConformanceRef"
  forMissingOrInvalid :: "Type \<Rightarrow> ProtocolDecl \<Rightarrow> ProtocolConformanceRef"
  getAssociatedConformance :: "ProtocolConformance \<Rightarrow> ty \<Rightarrow> ProtocolDecl \<Rightarrow> ProtocolConformanceRef"
  packGetAssociatedConformance ::
    "ProtocolConformanceRef \<Rightarrow> ty \<Rightarrow> ProtocolDecl \<Rightarrow> ProtocolConformanceRef"
  activeRequests :: "Request list"
  conformanceSubst :: "ProtocolConformance \<Rightarrow> InFlightSubstitution \<Rightarrow> fault + ProtocolConformanceRef"
  conformanceRefSubst ::
    "ProtocolConformanceRef \<Rightarrow> Type \<Rightarrow> InFlightSubstitution \<Rightarrow> fault + ProtocolConformanceRef"
  transformRec :: "(ty \<Rightarrow> Type option) \<Rightarrow> ty \<Rightarrow> Type"
  mapTypeIntoContext :: "ProtocolConformance \<Rightarrow> ty \<Rightarrow> ty"
  VerifyAllSubstitutionMaps :: bool

definition hasActiveRequest :: "Externals \<Rightarrow> Request \<Rightarrow> bool" where
  "hasActiveRequest env r = List.member (activeRequests env) r"

subsection \<open>Accessors\<close>

definition getConformances :: "SubstitutionMap \<Rightarrow> ProtocolConformanceRef list" where
  "getConformances m = (case m of Some st \<Rightarrow> st_conformances st | None \<Rightarrow> [])"

definition getGenericSignature :: "SubstitutionMap \<Rightarrow> GenericSignature option" where
  "getGenericSignature m = (case m of Some st \<Rightarrow> Some (st_genericSig st) | None \<Rightarrow> None)"

definition empty_map :: "SubstitutionMap \<Rightarrow> bool" where
  "empty_map m = (getGenericSignature m = None)"

definition getReplacementTypes :: "SubstitutionMap \<Rightarrow> Type list" where
  "getReplacementTypes m = (case m of None \<Rightarrow> [] | Some st \<Rightarrow> st_replacementTypes st)"

subsection \<open>verify\<close>

text \<open>The loop of \<^verbatim>\<open>verify\<close> over the requirements; \<open>conformanceIndex\<close> advances at
  the end of every iteration on a conformance requirement (\<^verbatim>\<open>SWIFT_DEFER\<close>).\<close>

fun verify_loop ::
  "Externals \<Rightarrow> SubstitutionMap \<Rightarrow> Requirement list \<Rightarrow> nat \<Rightarrow> fault + unit" where
  "verify_loop env m [] conformanceIndex = Inr ()"
| "verify_loop env m (Conformance firstType proto # reqs) conformanceIndex =
     bindR (typeSubstMap env m [] firstType) (\<lambda>substTy.
     bindR (deref substTy) (\<lambda>substType.
       if isTypeParameter substType \<or> isArchetypeType substType \<or>
          isTypeVariableOrMember substType \<or> isUnresolvedType substType \<or>
          hasError substType
       then verify_loop env m reqs (Suc conformanceIndex)
       else
         bindR (nth_checked (getConformances m) conformanceIndex) (\<lambda>conformance.
           case conformance of
             Invalid \<Rightarrow> verify_loop env m reqs (Suc conformanceIndex)
           | Concrete c \<Rightarrow>
               if isUnboundGenericType substType
               then verify_loop env m reqs (Suc conformanceIndex)
               else
                 let conformanceTy =
                       (if hasTypeParameter (getType c) \<and> \<not> hasTypeParameter substType
                        then mapTypeIntoContext env c (getType c) else getType c)
                 in if \<not> isEqual substType conformanceTy
                    then Inl (AssertionFailure ''conformance should match corresponding type'')
                    else if isExistentialType substType \<and> \<not> isSelfProtocolConformance c
                    then Inl (AssertionFailure ''Existential type cannot have normal conformance'')
                    else verify_loop env m reqs (Suc conformanceIndex)
           | _ \<Rightarrow> Inl (AssertionFailure ''Conformance should be concrete''))))"
| "verify_loop env m (req # reqs) conformanceIndex = verify_loop env m reqs conformanceIndex"

definition verify :: "Externals \<Rightarrow> SubstitutionMap \<Rightarrow> fault + unit" where
  "verify env m =
     (case m of
        None \<Rightarrow> Inr ()
      | Some st \<Rightarrow> verify_loop env m (getRequirements (st_genericSig st)) 0)"

subsection \<open>Construction\<close>

text \<open>\<^verbatim>\<open>Storage::Storage\<close>: the two size assertions, then the copies.\<close>

definition Storage_ctor ::
  "GenericSignature \<Rightarrow> Type list \<Rightarrow> ProtocolConformanceRef list \<Rightarrow> fault + Storage" where
  "Storage_ctor sig types confs =
     (if length types \<noteq> length (getGenericParams sig)
      then Inl (AssertionFailure ''replacementTypes.size() == getNumReplacementTypes()'')
      else if length confs \<noteq> getNumConformanceRequirements sig
      then Inl (AssertionFailure ''conformances.size() == numConformanceRequirements'')
      else Inr \<lparr> st_genericSig = sig,
                 st_numConformanceRequirements = getNumConformanceRequirements sig,
                 st_replacementTypes = types,
                 st_conformances = confs \<rparr>)"

text \<open>Modelled from the spec: \<^verbatim>\<open>Storage::get\<close> interns storage by (signature,
  replacement types, conformances). Values have no identity, so interning is the
  construction of the storage.\<close>

definition Storage_get ::
  "GenericSignature \<Rightarrow> Type list \<Rightarrow> ProtocolConformanceRef list \<Rightarrow> fault + Storage" where
  "Storage_get sig types confs = Storage_ctor sig types confs"

text \<open>\<^verbatim>\<open>SubstitutionMap::SubstitutionMap\<close>: intern, then verify when the option asks.\<close>

definition SubstitutionMap_ctor ::
  "Externals \<Rightarrow> GenericSignature \<Rightarrow> Type list \<Rightarrow> ProtocolConformanceRef list \<Rightarrow>
     fault + SubstitutionMap" where
  "SubstitutionMap_ctor env sig types confs =
     bindR (Storage_get sig types confs) (\<lambda>st.
       if VerifyAllSubstitutionMaps env
       then bindR (verify env (Some st)) (\<lambda>u. Inr (Some st))
       else Inr (Some st))"

text \<open>The shared algorithm \<^verbatim>\<open>get(genericSig, IFS)\<close>: the loop forming the replacement
  types, with its assertion, and the loop forming the stored conformances.\<close>

fun get_replacementTypes ::
  "Externals \<Rightarrow> InFlightSubstitution \<Rightarrow> GenericTypeParam list \<Rightarrow> fault + Type list" where
  "get_replacementTypes env IFS [] = Inr []"
| "get_replacementTypes env IFS (gp # gps) =
     bindR (typeSubstIFS env IFS (GenericTypeParamType gp)) (\<lambda>replacement.
       if (case replacement of
             None \<Rightarrow> True
           | Some r \<Rightarrow> hasError r \<or> isParameterPack gp = isPackType r)
       then bindR (get_replacementTypes env IFS gps) (\<lambda>rest. Inr (replacement # rest))
       else Inl (AssertionFailure ''replacement for pack parameter must be a pack type''))"

fun get_conformances ::
  "Externals \<Rightarrow> InFlightSubstitution \<Rightarrow> Requirement list \<Rightarrow>
     fault + ProtocolConformanceRef list" where
  "get_conformances env IFS [] = Inr []"
| "get_conformances env IFS (Conformance firstType proto # reqs) =
     (let depTy = getCanonicalType firstType in
      bindR (typeSubstIFS env IFS depTy) (\<lambda>replacement.
      bindR (IFS_lookupConformance env IFS depTy replacement proto 0) (\<lambda>conformance.
      bindR (get_conformances env IFS reqs) (\<lambda>rest. Inr (conformance # rest)))))"
| "get_conformances env IFS (req # reqs) = get_conformances env IFS reqs"

definition SubstitutionMap_get ::
  "Externals \<Rightarrow> GenericSignature option \<Rightarrow> InFlightSubstitution \<Rightarrow> fault + SubstitutionMap" where
  "SubstitutionMap_get env genericSig IFS =
     (case genericSig of
        None \<Rightarrow> Inr None
      | Some sig \<Rightarrow>
          bindR (get_replacementTypes env IFS (getGenericParams sig)) (\<lambda>replacementTypes.
          bindR (get_conformances env IFS (getRequirements sig)) (\<lambda>conformances.
            SubstitutionMap_ctor env sig replacementTypes conformances)))"

text \<open>\<^verbatim>\<open>get(genericSig, subs, lookupConformance)\<close>: the capability has no options.\<close>

definition SubstitutionMap_get_fns ::
  "Externals \<Rightarrow> GenericSignature option \<Rightarrow> (ty \<Rightarrow> fault + Type) \<Rightarrow>
     (ty \<Rightarrow> Type \<Rightarrow> ProtocolDecl \<Rightarrow> fault + ProtocolConformanceRef) \<Rightarrow> fault + SubstitutionMap" where
  "SubstitutionMap_get_fns env genericSig subsFn lookupFn =
     SubstitutionMap_get env genericSig
       \<lparr> subs = subsFn, lookupConformanceFn = lookupFn, getOptions = [] \<rparr>"

subsection \<open>lookupSubstitution\<close>

text \<open>The second half of \<^verbatim>\<open>lookupSubstitution\<close>: the index of the replacement type of a
  generic parameter, and the read of the replacement.\<close>

definition lookupGenericParam :: "SubstitutionMap \<Rightarrow> GenericTypeParam \<Rightarrow> fault + Type" where
  "lookupGenericParam m genericParam =
     (case getGenericSignature m of
        None \<Rightarrow> Inl NullDereference
      | Some genericSig \<Rightarrow>
          (let genericParams = getGenericParams genericSig;
               replacementIndex =
                 findIndexIn (getDepth genericParam, getIndex genericParam) genericParams
           in if replacementIndex = length genericParams then Inr None
              else nth_checked (getReplacementTypes m) replacementIndex))"

definition lookupSubstitution :: "SubstitutionMap \<Rightarrow> ty \<Rightarrow> fault + Type" where
  "lookupSubstitution m type =
     (if empty_map m then Inr None
      else case type of
        ArchetypeType kind root interfaceType super \<Rightarrow>
          if \<not> root then Inr None
          else if kind \<noteq> PrimaryArchetype \<and> kind \<noteq> PackArchetype then Inr None
          else (case getCanonicalType interfaceType of
                  GenericTypeParamType g \<Rightarrow> lookupGenericParam m g
                | _ \<Rightarrow> Inl BadCast)
      | GenericTypeParamType g \<Rightarrow> lookupGenericParam m g
      | _ \<Rightarrow> Inl BadCast)"

subsection \<open>lookupConformance\<close>

text \<open>The lambda \<^verbatim>\<open>getSignatureConformance\<close>: a linear scan of the requirements, counting
  the conformance requirements passed.\<close>

fun getSignatureConformance_loop ::
  "ProtocolConformanceRef list \<Rightarrow> ty \<Rightarrow> ProtocolDecl \<Rightarrow> Requirement list \<Rightarrow> nat \<Rightarrow>
     fault + ProtocolConformanceRef option" where
  "getSignatureConformance_loop confs type proto [] index = Inr None"
| "getSignatureConformance_loop confs type proto (Conformance firstType p # reqs) index =
     (if isEqual firstType type \<and> p = proto
      then bindR (nth_checked confs index) (\<lambda>c. Inr (Some c))
      else getSignatureConformance_loop confs type proto reqs (Suc index))"
| "getSignatureConformance_loop confs type proto (req # reqs) index =
     getSignatureConformance_loop confs type proto reqs index"

definition getSignatureConformance ::
  "SubstitutionMap \<Rightarrow> GenericSignature \<Rightarrow> ty \<Rightarrow> ProtocolDecl \<Rightarrow>
     fault + ProtocolConformanceRef option" where
  "getSignatureConformance m genericSig type proto =
     getSignatureConformance_loop (getConformances m) type proto (getRequirements genericSig) 0"

text \<open>The loop over the conformance path. \<open>conformance\<close> starts invalid; a step taken
  while it is invalid is treated as the first step.\<close>

fun walkPath ::
  "Externals \<Rightarrow> SubstitutionMap \<Rightarrow> GenericSignature \<Rightarrow> ty \<Rightarrow> ProtocolDecl \<Rightarrow>
     ProtocolConformanceRef \<Rightarrow> (ty \<times> ProtocolDecl) list \<Rightarrow> fault + ProtocolConformanceRef" where
  "walkPath env m genericSig type proto conformance [] = Inr conformance"
| "walkPath env m genericSig type proto conformance (step # path) =
     (case conformance of
        Invalid \<Rightarrow>
          bindR (getSignatureConformance m genericSig (fst step) (snd step)) (\<lambda>initialConformance.
            case initialConformance of
              Some c \<Rightarrow> walkPath env m genericSig type proto c path
            | None \<Rightarrow> Inr Invalid)
      | Abstract q \<Rightarrow>
          bindR (typeSubstMap env m [] type) (\<lambda>substTy.
          bindR (deref substTy) (\<lambda>substType.
            if hasError substType then Inr (Abstract proto)
            else if (\<not> isArchetypeType substType \<or> getSuperclass substType \<noteq> None) \<and>
                    \<not> isTypeParameter substType \<and> \<not> isExistentialType substType
            then Inr (globalLookupConformance env substType proto)
            else Inr (Abstract proto)))
      | Pack t p cs \<Rightarrow>
          (let c' = packGetAssociatedConformance env conformance (fst step) (snd step)
           in if isInvalid c' then Inr c' else walkPath env m genericSig type proto c' path)
      | Concrete concrete \<Rightarrow>
          (let normal = getRootNormalConformance concrete
           in if \<not> hasComputedAssociatedConformances normal \<and>
                 hasActiveRequest env (ResolveTypeWitnessesRequest normal)
              then Inr Invalid
              else
                (let c' = getAssociatedConformance env concrete (fst step) (snd step)
                 in if isInvalid c' then Inr c'
                    else walkPath env m genericSig type proto c' path)))"

definition lookupConformance ::
  "Externals \<Rightarrow> SubstitutionMap \<Rightarrow> ty \<Rightarrow> ProtocolDecl \<Rightarrow> fault + ProtocolConformanceRef" where
  "lookupConformance env m type0 proto =
     (case getGenericSignature m of
        None \<Rightarrow> Inr Invalid
      | Some genericSig \<Rightarrow>
          (let type =
                 (case type0 of
                    ArchetypeType kind root interfaceType super \<Rightarrow>
                      if kind \<noteq> OpaqueTypeArchetype then getCanonicalType interfaceType
                      else type0
                  | _ \<Rightarrow> type0)
           in if \<not> isTypeParameter type then Inr Invalid
              else
                bindR (getSignatureConformance m genericSig type proto) (\<lambda>directConformance.
                  case directConformance of
                    Some c \<Rightarrow> Inr c
                  | None \<Rightarrow>
                      if \<not> requiresProtocol genericSig type proto
                      then bindR (typeSubstMap env m [] type) (\<lambda>substType.
                             Inr (forMissingOrInvalid env substType proto))
                      else if getInvertibleProtocolKind proto \<noteq> None
                      then bindR (typeSubstMap env m [] type) (\<lambda>substTy.
                           bindR (deref substTy) (\<lambda>substType.
                             if \<not> isTypeParameter substType
                             then Inr (globalLookupConformance env substType proto)
                             else Inr (Abstract proto)))
                      else walkPath env m genericSig type proto Invalid
                             (getConformancePath genericSig type proto))))"

subsection \<open>subst\<close>

text \<open>The first loop of \<^verbatim>\<open>subst(IFS)\<close>: the image of every replacement type, and the
  assertion that its pack-ness did not change.\<close>

fun subst_replacementTypes ::
  "Externals \<Rightarrow> InFlightSubstitution \<Rightarrow> Type list \<Rightarrow> fault + Type list" where
  "subst_replacementTypes env IFS [] = Inr []"
| "subst_replacementTypes env IFS (type # types) =
     bindR (deref type) (\<lambda>t.
     bindR (typeSubstIFS env IFS t) (\<lambda>newSub.
     bindR (deref newSub) (\<lambda>n.
       if isPackType t = isPackType n
       then bindR (subst_replacementTypes env IFS types) (\<lambda>rest. Inr (newSub # rest))
       else Inl (AssertionFailure
                   ''substitution changed the pack-ness of a replacement type''))))"

text \<open>The second loop: one new conformance per conformance requirement, reading the
  old conformances from the front.\<close>

fun subst_conformances ::
  "Externals \<Rightarrow> SubstitutionMap \<Rightarrow> InFlightSubstitution \<Rightarrow> Requirement list \<Rightarrow>
     ProtocolConformanceRef list \<Rightarrow> fault + ProtocolConformanceRef list" where
  "subst_conformances env m IFS [] oldConformances =
     (if oldConformances = [] then Inr []
      else Inl (AssertionFailure ''oldConformances.empty()''))"
| "subst_conformances env m IFS (Conformance firstType proto # reqs) oldConformances =
     bindR (nth_checked oldConformances 0) (\<lambda>conformance.
     bindR (case conformance of
              Concrete c \<Rightarrow>
                if \<not> shouldSubstituteOpaqueArchetypes IFS then conformanceSubst env c IFS
                else bindR (typeSubstMap env m (getOptions IFS) firstType) (\<lambda>substType.
                       conformanceRefSubst env conformance substType IFS)
            | _ \<Rightarrow>
                bindR (typeSubstMap env m (getOptions IFS) firstType) (\<lambda>substType.
                  conformanceRefSubst env conformance substType IFS)) (\<lambda>newConformance.
     bindR (subst_conformances env m IFS reqs (drop 1 oldConformances)) (\<lambda>rest.
       Inr (newConformance # rest))))"
| "subst_conformances env m IFS (req # reqs) oldConformances =
     subst_conformances env m IFS reqs oldConformances"

definition SubstitutionMap_subst ::
  "Externals \<Rightarrow> SubstitutionMap \<Rightarrow> InFlightSubstitution \<Rightarrow> fault + SubstitutionMap" where
  "SubstitutionMap_subst env m IFS =
     (case getGenericSignature m of
        None \<Rightarrow> Inr None
      | Some genericSig \<Rightarrow>
          bindR (subst_replacementTypes env IFS (getReplacementTypes m)) (\<lambda>newSubs.
          bindR (subst_conformances env m IFS (getRequirements genericSig) (getConformances m))
            (\<lambda>newConformances.
              SubstitutionMap_ctor env genericSig newSubs newConformances)))"

subsection \<open>combineSubstitutionMaps\<close>

datatype CombineSubstitutionMaps = AtDepth | AtIndex

text \<open>The lambda \<^verbatim>\<open>replaceGenericParameter\<close>. The result \<open>None\<close> is \<^verbatim>\<open>std::nullopt\<close>, the
  result \<open>Some None\<close> is the null type.\<close>

definition replaceGenericParameter ::
  "CombineSubstitutionMaps \<Rightarrow> unsigned \<Rightarrow> unsigned \<Rightarrow> ty \<Rightarrow> Type option" where
  "replaceGenericParameter how firstDepthOrIndex secondDepthOrIndex type =
     (case getAsGenericTypeParam type of
        Some gp \<Rightarrow>
          (case how of
             AtDepth \<Rightarrow>
               if getDepth gp < firstDepthOrIndex then Some None
               else Some (Some (GenericTypeParamType
                      (GenericTypeParam None (isParameterPack gp)
                         (getDepth gp + secondDepthOrIndex - firstDepthOrIndex) (getIndex gp))))
           | AtIndex \<Rightarrow>
               if getIndex gp < firstDepthOrIndex then Some None
               else Some (Some (GenericTypeParamType
                      (GenericTypeParam None (isParameterPack gp) (getDepth gp)
                         (getIndex gp + secondDepthOrIndex - firstDepthOrIndex)))))
      | None \<Rightarrow> None)"

text \<open>The type query handed to \<^verbatim>\<open>get\<close>.\<close>

definition combine_subs ::
  "Externals \<Rightarrow> SubstitutionMap \<Rightarrow> SubstitutionMap \<Rightarrow> CombineSubstitutionMaps \<Rightarrow>
     unsigned \<Rightarrow> unsigned \<Rightarrow> ty \<Rightarrow> fault + Type" where
  "combine_subs env firstSubMap secondSubMap how firstDepthOrIndex secondDepthOrIndex type =
     (case replaceGenericParameter how firstDepthOrIndex secondDepthOrIndex type of
        Some (Some replacement) \<Rightarrow> typeSubstMap env secondSubMap [] replacement
      | _ \<Rightarrow> typeSubstMap env firstSubMap [] type)"

text \<open>The conformance query handed to \<^verbatim>\<open>get\<close>.\<close>

definition combine_conformances ::
  "Externals \<Rightarrow> SubstitutionMap \<Rightarrow> SubstitutionMap \<Rightarrow> CombineSubstitutionMaps \<Rightarrow>
     unsigned \<Rightarrow> unsigned \<Rightarrow> ty \<Rightarrow> Type \<Rightarrow> ProtocolDecl \<Rightarrow> fault + ProtocolConformanceRef" where
  "combine_conformances env firstSubMap secondSubMap how firstDepthOrIndex secondDepthOrIndex
       type substTy proto =
     (case transformRec env
             (replaceGenericParameter how firstDepthOrIndex secondDepthOrIndex) type of
        Some replacement \<Rightarrow>
          lookupConformance env secondSubMap (getCanonicalType replacement) proto
      | None \<Rightarrow>
          bindR (lookupConformance env firstSubMap type proto) (\<lambda>conformance.
            if \<not> isInvalid conformance then Inr conformance
            else bindR (deref substTy) (\<lambda>substType.
                   if isTypeParameter substType then Inr (Abstract proto)
                   else Inr (globalLookupConformance env substType proto))))"

definition combineSubstitutionMaps ::
  "Externals \<Rightarrow> SubstitutionMap \<Rightarrow> SubstitutionMap \<Rightarrow> CombineSubstitutionMaps \<Rightarrow>
     unsigned \<Rightarrow> unsigned \<Rightarrow> GenericSignature option \<Rightarrow> fault + SubstitutionMap" where
  "combineSubstitutionMaps env firstSubMap secondSubMap how firstDepthOrIndex
       secondDepthOrIndex genericSig =
     (case genericSig of
        None \<Rightarrow> Inl NullDereference
      | Some sig \<Rightarrow>
          SubstitutionMap_get_fns env (Some sig)
            (combine_subs env firstSubMap secondSubMap how firstDepthOrIndex secondDepthOrIndex)
            (combine_conformances env firstSubMap secondSubMap how firstDepthOrIndex
               secondDepthOrIndex))"

subsection \<open>isIdentity\<close>

text \<open>The loop over the stored conformances: \<open>False\<close> is the early \<^verbatim>\<open>return false\<close>.\<close>

fun isIdentity_conformances :: "ProtocolConformanceRef list \<Rightarrow> bool" where
  "isIdentity_conformances [] = True"
| "isIdentity_conformances (conf # confs) =
     (if isAbstract conf then isIdentity_conformances confs
      else case conf of
        Pack t p patternConfs \<Rightarrow>
          if length patternConfs = 1 \<and> isAbstract (patternConfs ! 0)
          then isIdentity_conformances confs
          else False
      | _ \<Rightarrow> False)"

text \<open>The callback run by \<^verbatim>\<open>forEachParam\<close>, threading \<open>hasNonIdentityReplacement\<close> and the
  remaining \<open>replacements\<close>.\<close>

fun isIdentity_params ::
  "(GenericTypeParam \<times> bool) list \<Rightarrow> Type list \<Rightarrow> bool \<Rightarrow> fault + bool \<times> Type list" where
  "isIdentity_params [] replacements hasNonIdentityReplacement =
     Inr (hasNonIdentityReplacement, replacements)"
| "isIdentity_params ((paramTy, isCanonical) # ps) replacements hasNonIdentityReplacement =
     bindR (if isCanonical
            then bindR (nth_checked replacements 0) (\<lambda>r.
                 bindR (deref r) (\<lambda>replacement.
                   let wrappedParamTy =
                         (if isParameterPack paramTy
                          then getSingletonPackExpansion (GenericTypeParamType paramTy)
                          else GenericTypeParamType paramTy)
                   in Inr (if \<not> isEqual wrappedParamTy replacement then True
                           else hasNonIdentityReplacement)))
            else Inr hasNonIdentityReplacement) (\<lambda>h.
       if replacements = [] then Inl IndexOutOfBounds
       else isIdentity_params ps (drop 1 replacements) h)"

definition isIdentity :: "SubstitutionMap \<Rightarrow> fault + bool" where
  "isIdentity m =
     (case getGenericSignature m of
        None \<Rightarrow> Inr True
      | Some sig \<Rightarrow>
          if \<not> isIdentity_conformances (getConformances m) then Inr False
          else bindR (isIdentity_params (forEachParam sig) (getReplacementTypes m) False)
                 (\<lambda>(hasNonIdentityReplacement, replacements).
                    if replacements = [] then Inr (\<not> hasNonIdentityReplacement)
                    else Inl (AssertionFailure ''replacements.empty()'')))"

subsection \<open>Vocabulary of the properties\<close>

text \<open>The conformance requirements of a signature, in declared order, and what it
  means for a requirement to state the conformance of a type to a protocol.\<close>

definition conformanceRequirements :: "GenericSignature \<Rightarrow> Requirement list" where
  "conformanceRequirements sig = filter isConformanceRequirement (getRequirements sig)"

fun statesConformance :: "Requirement \<Rightarrow> ty \<Rightarrow> ProtocolDecl \<Rightarrow> bool" where
  "statesConformance (Conformance firstType p) type proto = (isEqual firstType type \<and> p = proto)"
| "statesConformance r type proto = False"

text \<open>The result the walk gives on a step taken while the current conformance is
  abstract, in terms of the substituted type.\<close>

definition abstractStepResult :: "Externals \<Rightarrow> ty \<Rightarrow> ProtocolDecl \<Rightarrow> ProtocolConformanceRef" where
  "abstractStepResult env substType proto =
     (if hasError substType then Abstract proto
      else if \<not> isTypeParameter substType \<and> \<not> isExistentialType substType \<and>
              (\<not> isArchetypeType substType \<or> getSuperclass substType \<noteq> None)
      then globalLookupConformance env substType proto
      else Abstract proto)"

text \<open>The conditions under which \<open>lookupConformance\<close> reaches the walk of a conformance
  path whose first step is found in the signature with conformance \<open>c\<close> and is followed
  by at least one more step.\<close>

definition reachesSecondStep ::
  "SubstitutionMap \<Rightarrow> GenericSignature \<Rightarrow> ty \<Rightarrow> ProtocolDecl \<Rightarrow> ProtocolConformanceRef \<Rightarrow> bool" where
  "reachesSecondStep m sig type proto c =
     (getGenericSignature m = Some sig \<and> isTypeParameter type \<and>
      getSignatureConformance m sig type proto = Inr None \<and>
      requiresProtocol sig type proto \<and> getInvertibleProtocolKind proto = None \<and>
      (case getConformancePath sig type proto of
         s1 # s2 # path \<Rightarrow> getSignatureConformance m sig (fst s1) (snd s1) = Inr (Some c)
       | _ \<Rightarrow> False))"

text \<open>Two generic parameters have the same key when they agree on depth and index.\<close>

definition sameKey :: "GenericTypeParam \<Rightarrow> GenericTypeParam \<Rightarrow> bool" where
  "sameKey p g = (getDepth p = getDepth g \<and> getIndex p = getIndex g)"

text \<open>A stored conformance that does not prevent a map from being the identity: an
  abstract conformance, or a pack conformance whose pattern conformances are exactly
  one abstract conformance.\<close>

fun identityConformance :: "ProtocolConformanceRef \<Rightarrow> bool" where
  "identityConformance (Abstract p) = True"
| "identityConformance (Pack t p [Abstract q]) = True"
| "identityConformance c = False"

text \<open>The type a generic parameter is compared with: the parameter itself, wrapped in
  a singleton pack expansion when it is a parameter pack.\<close>

definition wrappedParam :: "GenericTypeParam \<Rightarrow> ty" where
  "wrappedParam p =
     (if isParameterPack p then getSingletonPackExpansion (GenericTypeParamType p)
      else GenericTypeParamType p)"

text \<open>Whether the replacement stored for a parameter is that parameter itself.\<close>

definition identityReplacement :: "GenericTypeParam \<Rightarrow> Type \<Rightarrow> bool" where
  "identityReplacement p r =
     (case r of None \<Rightarrow> False | Some t \<Rightarrow> isEqual (wrappedParam p) t)"

text \<open>The pack-ness invariant that \<^verbatim>\<open>get\<close> asserts of a replacement type: it is null, or
  has an error, or is a pack type exactly when the parameter is a parameter pack.\<close>

definition packnessAgrees :: "GenericTypeParam \<Rightarrow> Type \<Rightarrow> bool" where
  "packnessAgrees gp replacement =
     (case replacement of
        None \<Rightarrow> True
      | Some r \<Rightarrow> hasError r \<or> isParameterPack gp = isPackType r)"

text \<open>A substituted type is fully concrete when \<^verbatim>\<open>verify\<close> does not skip it: it is not a
  type parameter, an archetype, a type variable or member of one, or an unresolved
  type, and has no error.\<close>

definition fullyConcrete :: "ty \<Rightarrow> bool" where
  "fullyConcrete s =
     (\<not> isTypeParameter s \<and> \<not> isArchetypeType s \<and> \<not> isTypeVariableOrMember s \<and>
      \<not> isUnresolvedType s \<and> \<not> hasError s)"

text \<open>The type of a witness that is compared with the substituted type: mapped into
  the context of the witness when it mentions type parameters and the substituted
  type does not.\<close>

definition witnessType :: "Externals \<Rightarrow> ProtocolConformance \<Rightarrow> ty \<Rightarrow> ty" where
  "witnessType env c substType =
     (if hasTypeParameter (getType c) \<and> \<not> hasTypeParameter substType
      then mapTypeIntoContext env c (getType c) else getType c)"

text \<open>What a stored conformance must be for a fully concrete substituted type: invalid,
  or concrete with, unless the substituted type is an unbound generic type, a witness
  type equal to the substituted type and a self-conformance when the substituted type
  is existential.\<close>

definition verifiedConformance :: "Externals \<Rightarrow> ty \<Rightarrow> ProtocolConformanceRef \<Rightarrow> bool" where
  "verifiedConformance env substType conformance =
     (case conformance of
        Invalid \<Rightarrow> True
      | Concrete c \<Rightarrow>
          (if isUnboundGenericType substType then True
           else isEqual substType (witnessType env c substType) \<and>
                (if isExistentialType substType then isSelfProtocolConformance c else True))
      | _ \<Rightarrow> False)"

subsection \<open>Example inputs\<close>

text \<open>Concrete signatures, conformances and collaborators, on which the theorems
  below are instantiated. \<open>env0\<close> substitutes a bare generic parameter or archetype
  through the query of the capability, a bare generic parameter through
  \<open>lookupSubstitution\<close> of a map, and leaves other types alone.\<close>

definition protoP :: ProtocolDecl where
  "protoP = ProtocolDecl ''P'' None"

definition protoQ :: ProtocolDecl where
  "protoQ = ProtocolDecl ''Q'' None"

definition paramT :: GenericTypeParam where
  "paramT = GenericTypeParam None False 0 0"

definition tyT :: ty where
  "tyT = GenericTypeParamType paramT"

definition tyInt :: ty where
  "tyInt = NominalType ''Int'' []"

definition sigTPQ :: GenericSignature where
  "sigTPQ = \<lparr> getGenericParams = [paramT],
              getRequirements = [Conformance tyT protoP, Layout tyT ''AnyObject'', Conformance tyT protoQ],
              requiresProtocol = (\<lambda>t p. False),
              getConformancePath = (\<lambda>t p. []),
              paramIsCanonical = (\<lambda>i. True) \<rparr>"

definition confIntP :: ProtocolConformance where
  "confIntP = ProtocolConformance NormalKind tyInt protoP (NormalProtocolConformance 0 True)"

definition confIntQ :: ProtocolConformance where
  "confIntQ = ProtocolConformance NormalKind tyInt protoQ (NormalProtocolConformance 1 True)"

definition env0 :: Externals where
  "env0 = \<lparr> typeSubstIFS = (\<lambda>IFS t. case t of
                GenericTypeParamType g \<Rightarrow> subs IFS t
              | ArchetypeType k r i s \<Rightarrow> subs IFS t
              | _ \<Rightarrow> Inr (Some t)),
            typeSubstMap = (\<lambda>m opts t. case t of
                GenericTypeParamType g \<Rightarrow>
                  (case lookupSubstitution m t of Inr None \<Rightarrow> Inr (Some t) | r \<Rightarrow> r)
              | _ \<Rightarrow> Inr (Some t)),
            IFS_lookupConformance = (\<lambda>IFS depTy replacement proto level.
                lookupConformanceFn IFS depTy replacement proto),
            globalLookupConformance = (\<lambda>t p. Invalid),
            forMissingOrInvalid = (\<lambda>t p. Invalid),
            getAssociatedConformance = (\<lambda>c t p. Invalid),
            packGetAssociatedConformance = (\<lambda>c t p. Invalid),
            activeRequests = [],
            conformanceSubst = (\<lambda>c IFS. Inr (Concrete c)),
            conformanceRefSubst = (\<lambda>c t IFS. Inr c),
            transformRec = (\<lambda>f t. case f t of Some r \<Rightarrow> r | None \<Rightarrow> Some t),
            mapTypeIntoContext = (\<lambda>c t. t),
            VerifyAllSubstitutionMaps = True \<rparr>"

definition stIntPQ :: Storage where
  "stIntPQ = \<lparr> st_genericSig = sigTPQ, st_numConformanceRequirements = 2,
               st_replacementTypes = [Some tyInt],
               st_conformances = [Concrete confIntP, Concrete confIntQ] \<rparr>"

text \<open>Example: the signature \<open><T where T : P>\<close>, in which \<open>T.A : Q\<close> is reached by the
  conformance path \<open>(T : P)(T.A : Q)\<close>.\<close>

definition tyTA :: ty where
  "tyTA = DependentMemberType tyT ''A''"

definition sigTA :: GenericSignature where
  "sigTA = \<lparr> getGenericParams = [paramT],
             getRequirements = [Conformance tyT protoP],
             requiresProtocol = (\<lambda>t p. t = tyTA \<and> p = protoQ),
             getConformancePath =
               (\<lambda>t p. if t = tyTA \<and> p = protoQ then [(tyT, protoP), (tyTA, protoQ)] else []),
             paramIsCanonical = (\<lambda>i. True) \<rparr>"

definition stAbstract :: Storage where
  "stAbstract = \<lparr> st_genericSig = sigTA, st_numConformanceRequirements = 1,
                  st_replacementTypes = [Some tyInt],
                  st_conformances = [Abstract protoP] \<rparr>"

definition envConcrete :: Externals where
  "envConcrete = env0 \<lparr> typeSubstMap := (\<lambda>m opts t. Inr (Some tyInt)),
                        globalLookupConformance := (\<lambda>t p. Concrete confIntQ) \<rparr>"





text \<open>Example: the signature \<open><T, U>\<close> with \<open>T := Int\<close>, \<open>U := String\<close>.\<close>

definition paramU :: GenericTypeParam where
  "paramU = GenericTypeParam None False 0 1"

definition tyString :: ty where
  "tyString = NominalType ''String'' []"

definition sigTU :: GenericSignature where
  "sigTU = \<lparr> getGenericParams = [paramT, paramU],
             getRequirements = [],
             requiresProtocol = (\<lambda>t p. False),
             getConformancePath = (\<lambda>t p. []),
             paramIsCanonical = (\<lambda>i. True) \<rparr>"

definition stTU :: Storage where
  "stTU = \<lparr> st_genericSig = sigTU, st_numConformanceRequirements = 0,
            st_replacementTypes = [Some tyInt, Some tyString],
            st_conformances = [] \<rparr>"

text \<open>Example: the signature \<open><T, each U, V where T : P>\<close> in which \<open>V\<close> is not
  canonical, with the identity replacements for \<open>T\<close> and \<open>U\<close>.\<close>

definition paramEachU :: GenericTypeParam where
  "paramEachU = GenericTypeParam None True 0 1"

definition paramV :: GenericTypeParam where
  "paramV = GenericTypeParam None False 0 2"

definition sigTUV :: GenericSignature where
  "sigTUV = \<lparr> getGenericParams = [paramT, paramEachU, paramV],
              getRequirements = [Conformance tyT protoP, SameType (GenericTypeParamType paramV) tyInt],
              requiresProtocol = (\<lambda>t p. False),
              getConformancePath = (\<lambda>t p. []),
              paramIsCanonical = (\<lambda>i. i \<noteq> 2) \<rparr>"

definition stIdentity :: Storage where
  "stIdentity =
     \<lparr> st_genericSig = sigTUV, st_numConformanceRequirements = 1,
       st_replacementTypes =
         [Some (GenericTypeParamType (GenericTypeParam (Some ''T'') False 0 0)),
          Some (PackType [PackExpansionType (GenericTypeParamType paramEachU)
                            (GenericTypeParamType paramEachU)]),
          Some tyInt],
       st_conformances = [Abstract protoP] \<rparr>"

definition stNotIdentity :: Storage where
  "stNotIdentity = stIdentity \<lparr> st_replacementTypes :=
       [Some tyInt,
        Some (PackType [PackExpansionType (GenericTypeParamType paramEachU)
                          (GenericTypeParamType paramEachU)]),
        Some tyInt] \<rparr>"

text \<open>Example: two maps for \<open>combineSubstitutionMaps\<close>. The target signature has \<open>T\<close> at
  depth 0 and \<open>W\<close> at depth 1; the first map replaces \<open>T\<close>, the second map replaces
  the parameter at depth 0, index 0 that \<open>W\<close> is re-based to.\<close>

definition paramW :: GenericTypeParam where
  "paramW = GenericTypeParam None False 1 0"

definition sigTW :: GenericSignature where
  "sigTW = \<lparr> getGenericParams = [paramT, paramW],
             getRequirements = [],
             requiresProtocol = (\<lambda>t p. False),
             getConformancePath = (\<lambda>t p. []),
             paramIsCanonical = (\<lambda>i. True) \<rparr>"

definition sigT :: GenericSignature where
  "sigT = \<lparr> getGenericParams = [paramT],
            getRequirements = [],
            requiresProtocol = (\<lambda>t p. False),
            getConformancePath = (\<lambda>t p. []),
            paramIsCanonical = (\<lambda>i. True) \<rparr>"

definition stFirst :: Storage where
  "stFirst = \<lparr> st_genericSig = sigT, st_numConformanceRequirements = 0,
               st_replacementTypes = [Some tyInt], st_conformances = [] \<rparr>"

definition stSecond :: Storage where
  "stSecond = \<lparr> st_genericSig = sigT, st_numConformanceRequirements = 0,
                st_replacementTypes = [Some tyString], st_conformances = [] \<rparr>"

text \<open>Example: a capability that leaves every type alone, and collaborators without
  the verification pass.\<close>

definition ifsIdentity :: InFlightSubstitution where
  "ifsIdentity = \<lparr> subs = (\<lambda>t. Inr (Some t)),
                   lookupConformanceFn = (\<lambda>t T p. Inr (Abstract p)),
                   getOptions = [] \<rparr>"

definition envNoVerify :: Externals where
  "envNoVerify = env0 \<lparr> VerifyAllSubstitutionMaps := False \<rparr>"

text \<open>Example: the signature \<open><each U>\<close>; an archetype whose superclass bound has an
  error; capabilities that answer every query with that archetype, and with
  \<open>Int\<close>.\<close>

definition sigEachU :: GenericSignature where
  "sigEachU = \<lparr> getGenericParams = [paramEachU],
                getRequirements = [],
                requiresProtocol = (\<lambda>t p. False),
                getConformancePath = (\<lambda>t p. []),
                paramIsCanonical = (\<lambda>i. True) \<rparr>"

definition tyErrorArchetype :: ty where
  "tyErrorArchetype =
     ArchetypeType PrimaryArchetype True tyT (Some (NominalType ''C'' [ErrorType]))"

definition ifsErrorArchetype :: InFlightSubstitution where
  "ifsErrorArchetype = \<lparr> subs = (\<lambda>t. Inr (Some tyErrorArchetype)),
                         lookupConformanceFn = (\<lambda>t T p. Inr (Abstract p)),
                         getOptions = [] \<rparr>"

definition ifsInt :: InFlightSubstitution where
  "ifsInt = \<lparr> subs = (\<lambda>t. Inr (Some tyInt)),
              lookupConformanceFn = (\<lambda>t T p. Inr (Abstract p)),
              getOptions = [] \<rparr>"

definition ifsEmptyPack :: InFlightSubstitution where
  "ifsEmptyPack = \<lparr> subs = (\<lambda>t. Inr (Some (PackType []))),
                    lookupConformanceFn = (\<lambda>t T p. Inr (Abstract p)),
                    getOptions = [] \<rparr>"

definition stEachU :: "Type \<Rightarrow> Storage" where
  "stEachU replacement =
     \<lparr> st_genericSig = sigEachU, st_numConformanceRequirements = 0,
       st_replacementTypes = [replacement], st_conformances = [] \<rparr>"

text \<open>Examples: maps for \<open><T where T : P>\<close> with \<open>T := Int\<close> and an invalid stored
  conformance, and with \<open>T\<close> replaced by an unbound generic type and the witness of
  \<open>Int : P\<close>.\<close>

definition stInvalid :: Storage where
  "stInvalid = \<lparr> st_genericSig = sigTA, st_numConformanceRequirements = 1,
                 st_replacementTypes = [Some tyInt],
                 st_conformances = [Invalid] \<rparr>"

definition stUnbound :: Storage where
  "stUnbound = \<lparr> st_genericSig = sigTA, st_numConformanceRequirements = 1,
                 st_replacementTypes = [Some (UnboundGenericType ''G'')],
                 st_conformances = [Concrete confIntP] \<rparr>"

section \<open>Properties\<close>

subsection \<open>Construction and its accessors\<close>

lemma bindR_simps [simp]:
  "bindR (Inl e) f = Inl e"
  "bindR (Inr x) f = f x"
  by (simp_all add: bindR_def)

text \<open>
  C7, as the claim states it, fails. For \<open><T where T : P>\<close> the arrays \<open>[Int]\<close> and
  \<open>[abstract P]\<close> are aligned to the signature and respect pack-ness, and with the
  option \<^verbatim>\<open>VerifyAllSubstitutionMaps\<close> set the constructor runs \<^verbatim>\<open>verify\<close>, which fails
  its assertion that the conformance of a concrete type is concrete: no map is
  constructed.
\<close>

theorem get_roundtrip_counterexample:
  "length [Some tyInt] = length (getGenericParams sigTA) \<and>
   length [Abstract protoP] = getNumConformanceRequirements sigTA \<and>
   getGenericParams sigTA = [paramT] \<and>
   isParameterPack paramT = isPackType tyInt \<and>
   VerifyAllSubstitutionMaps env0 \<and>
   SubstitutionMap_ctor env0 sigTA [Some tyInt] [Abstract protoP] =
     Inl (AssertionFailure ''Conformance should be concrete'')"
  by (simp add: SubstitutionMap_ctor_def Storage_get_def Storage_ctor_def
      getNumConformanceRequirements_def env0_def verify_def sigTA_def tyT_def
      lookupSubstitution_def empty_map_def getGenericSignature_def lookupGenericParam_def
      paramT_def getReplacementTypes_def nth_checked_def deref_def tyInt_def
      isArchetypeType_def isUnresolvedType_def getConformances_def isPackType_def)

text \<open>
  C7, amended. For arrays aligned to the signature's parameter count and
  conformance-requirement count, the constructor of a map from a signature and the two
  arrays, which \<^verbatim>\<open>get(sig, types, confs)\<close> runs, either returns a map whose
  \<^verbatim>\<open>getReplacementTypes()\<close> and \<^verbatim>\<open>getConformances()\<close> are exactly the arrays given, in
  the same order, or, only when the option \<^verbatim>\<open>VerifyAllSubstitutionMaps\<close> is set and
  \<^verbatim>\<open>verify\<close> rejects the map made of the two arrays, signals the fault of \<^verbatim>\<open>verify\<close>.
\<close>

theorem get_roundtrip:
  assumes "length types = length (getGenericParams sig)"
    and "length confs = getNumConformanceRequirements sig"
  shows "(\<exists>m. SubstitutionMap_ctor env sig types confs = Inr m \<and>
              getGenericSignature m = Some sig \<and>
              getReplacementTypes m = types \<and> getConformances m = confs) \<or>
         (VerifyAllSubstitutionMaps env \<and>
            (\<exists>e. SubstitutionMap_ctor env sig types confs = Inl e \<and>
                 verify env (Some \<lparr> st_genericSig = sig,
                     st_numConformanceRequirements = getNumConformanceRequirements sig,
                     st_replacementTypes = types, st_conformances = confs \<rparr>) = Inl e))"
proof (cases "VerifyAllSubstitutionMaps env")
  case False
  with assms show ?thesis
    by (simp add: SubstitutionMap_ctor_def Storage_get_def
        Storage_ctor_def getReplacementTypes_def getConformances_def getGenericSignature_def)
next
  case True
  let ?st = "\<lparr> st_genericSig = sig,
               st_numConformanceRequirements = getNumConformanceRequirements sig,
               st_replacementTypes = types, st_conformances = confs \<rparr>"
  show ?thesis
  proof (cases "verify env (Some ?st)")
    case (Inl e)
    with True assms show ?thesis
      by (simp add: SubstitutionMap_ctor_def Storage_get_def
          Storage_ctor_def)
  next
    case (Inr u)
    with True assms show ?thesis
      by (simp add: SubstitutionMap_ctor_def Storage_get_def
          Storage_ctor_def getReplacementTypes_def getConformances_def getGenericSignature_def)
  qed
qed

theorem get_roundtrip_witness:
  "length [Some tyInt] = length (getGenericParams sigTPQ) \<and>
   length [Concrete confIntP, Concrete confIntQ] = getNumConformanceRequirements sigTPQ \<and>
   VerifyAllSubstitutionMaps env0 \<and>
   (\<exists>m. SubstitutionMap_ctor env0 sigTPQ [Some tyInt]
          [Concrete confIntP, Concrete confIntQ] = Inr m \<and>
        getReplacementTypes m = [Some tyInt] \<and>
        getConformances m = [Concrete confIntP, Concrete confIntQ])"
proof -
  have 1: "length [Some tyInt] = length (getGenericParams sigTPQ)"
    by (simp add: sigTPQ_def)
  have 2: "length [Concrete confIntP, Concrete confIntQ] = getNumConformanceRequirements sigTPQ"
    by (simp add: sigTPQ_def getNumConformanceRequirements_def)
  have 3: "SubstitutionMap_ctor env0 sigTPQ [Some tyInt]
             [Concrete confIntP, Concrete confIntQ] \<noteq> Inl e" for e
    by (simp add: SubstitutionMap_ctor_def Storage_get_def
        Storage_ctor_def getNumConformanceRequirements_def
        env0_def verify_def sigTPQ_def tyT_def lookupSubstitution_def empty_map_def
        getGenericSignature_def lookupGenericParam_def paramT_def getReplacementTypes_def
        nth_checked_def deref_def tyInt_def isArchetypeType_def isUnresolvedType_def
        getConformances_def isUnboundGenericType_def confIntP_def confIntQ_def isEqual_def
        isExistentialType_def isSelfProtocolConformance_def)
  have 4: "VerifyAllSubstitutionMaps env0" by (simp add: env0_def)
  from get_roundtrip [OF 1 2, of env0] 1 2 3 4 show ?thesis by blast
qed

subsection \<open>The fast path of lookupConformance\<close>

lemma getSignatureConformance_loop_first:
  assumes "i < length (filter isConformanceRequirement reqs)"
    and "statesConformance (filter isConformanceRequirement reqs ! i) T P"
    and "\<forall>j<i. \<not> statesConformance (filter isConformanceRequirement reqs ! j) T P"
    and "k + i < length confs"
  shows "getSignatureConformance_loop confs T P reqs k = Inr (Some (confs ! (k + i)))"
  using assms
proof (induction reqs arbitrary: i k)
  case Nil
  then show ?case by simp
next
  case (Cons r reqs)
  show ?case
  proof (cases "isConformanceRequirement r")
    case False
    then have "getSignatureConformance_loop confs T P (r # reqs) k =
               getSignatureConformance_loop confs T P reqs k"
      by (cases r) simp_all
    moreover from False Cons.prems
    have "getSignatureConformance_loop confs T P reqs k = Inr (Some (confs ! (k + i)))"
      by (intro Cons.IH) simp_all
    ultimately show ?thesis by simp
  next
    case True
    then obtain F p where r: "r = Conformance F p" by (cases r) simp_all
    show ?thesis
    proof (cases "statesConformance r T P")
      case True
      have "i = 0"
      proof (rule ccontr)
        assume "i \<noteq> 0"
        then have "0 < i" by simp
        with Cons.prems(3) have "\<not> statesConformance (filter isConformanceRequirement (r # reqs) ! 0) T P"
          by blast
        with True r show False by simp
      qed
      with True r Cons.prems(4) show ?thesis by (simp add: nth_checked_def)
    next
      case False
      with Cons.prems(2) r have "i \<noteq> 0" by (cases i) auto
      then obtain i' where i: "i = Suc i'" by (cases i) auto
      from False r have step: "getSignatureConformance_loop confs T P (r # reqs) k =
               getSignatureConformance_loop confs T P reqs (Suc k)"
        by auto
      have "getSignatureConformance_loop confs T P reqs (Suc k) = Inr (Some (confs ! (Suc k + i')))"
      proof (rule Cons.IH)
        from Cons.prems(1) r i show "i' < length (filter isConformanceRequirement reqs)" by simp
        from Cons.prems(2) r i show "statesConformance (filter isConformanceRequirement reqs ! i') T P" by simp
        from Cons.prems(3) r i show "\<forall>j<i'. \<not> statesConformance (filter isConformanceRequirement reqs ! j) T P"
          by fastforce
        from Cons.prems(4) i show "Suc k + i' < length confs" by simp
      qed
      with step i show ?thesis by simp
    qed
  qed
qed

lemma isTypeParameter_not_archetype:
  "isTypeParameter T \<Longrightarrow> (case T of ArchetypeType kind root interfaceType super \<Rightarrow> f kind root interfaceType super | _ \<Rightarrow> T) = T"
  by (cases T) simp_all

lemma lookupConformance_first_stated:
  assumes "length (st_conformances st) = getNumConformanceRequirements (st_genericSig st)"
    and "isTypeParameter T"
    and "i < length (conformanceRequirements (st_genericSig st))"
    and "statesConformance (conformanceRequirements (st_genericSig st) ! i) T P"
    and "\<forall>j<i. \<not> statesConformance (conformanceRequirements (st_genericSig st) ! j) T P"
  shows "lookupConformance env (Some st) T P = Inr (st_conformances st ! i)"
proof -
  from assms(1,3) have "0 + i < length (st_conformances st)"
    by (simp add: getNumConformanceRequirements_def conformanceRequirements_def)
  with assms(3-5)
  have "getSignatureConformance (Some st) (st_genericSig st) T P =
        Inr (Some (st_conformances st ! (0 + i)))"
    unfolding getSignatureConformance_def conformanceRequirements_def
    by (simp only: getSignatureConformance_loop_first getConformances_def option.case)
  with assms(2) show ?thesis
    by (simp add: lookupConformance_def getGenericSignature_def isTypeParameter_not_archetype)
qed

text \<open>
  C1 (fast path). In a non-empty map whose storage has one conformance per conformance
  requirement, let \<open>T\<close> be a type parameter and let the \<open>i\<close>-th conformance requirement of
  the signature state \<open>T : P\<close>. Then \<open>lookupConformance T P\<close> returns a stored
  conformance, whatever the collaborators are: the one at the position of the first
  conformance requirement, in declared order, that states \<open>T : P\<close>. This is position
  \<open>i\<close> when no earlier conformance requirement states \<open>T : P\<close>, as in a signature that
  states no requirement twice.
\<close>

theorem lookupConformance_fast_path:
  assumes "length (st_conformances st) = getNumConformanceRequirements (st_genericSig st)"
    and "isTypeParameter T"
    and "i < length (conformanceRequirements (st_genericSig st))"
    and "statesConformance (conformanceRequirements (st_genericSig st) ! i) T P"
  shows "(\<exists>j\<le>i. statesConformance (conformanceRequirements (st_genericSig st) ! j) T P \<and>
                (\<forall>k<j. \<not> statesConformance (conformanceRequirements (st_genericSig st) ! k) T P) \<and>
                lookupConformance env (Some st) T P = Inr (st_conformances st ! j)) \<and>
         ((\<forall>k<i. \<not> statesConformance (conformanceRequirements (st_genericSig st) ! k) T P) \<longrightarrow>
            lookupConformance env (Some st) T P = Inr (st_conformances st ! i))"
proof -
  let ?S = "\<lambda>j. statesConformance (conformanceRequirements (st_genericSig st) ! j) T P"
  define j where "j = (LEAST j. ?S j)"
  from assms(4) have sj: "?S j" unfolding j_def by (rule LeastI)
  from assms(4) have le: "j \<le> i" unfolding j_def by (rule Least_le)
  have first: "\<forall>k<j. \<not> ?S k" unfolding j_def using not_less_Least by blast
  from le assms(3) have lt: "j < length (conformanceRequirements (st_genericSig st))" by simp
  have "lookupConformance env (Some st) T P = Inr (st_conformances st ! j)"
    by (rule lookupConformance_first_stated [OF assms(1,2) lt sj first])
  with sj le first have a: "\<exists>j\<le>i. ?S j \<and> (\<forall>k<j. \<not> ?S k) \<and>
        lookupConformance env (Some st) T P = Inr (st_conformances st ! j)"
    by blast
  have b: "lookupConformance env (Some st) T P = Inr (st_conformances st ! i)"
    if "\<forall>k<i. \<not> ?S k"
    by (rule lookupConformance_first_stated [OF assms that])
  from a b show ?thesis by blast
qed

theorem lookupConformance_fast_path_witness:
  "length (st_conformances stIntPQ) = getNumConformanceRequirements (st_genericSig stIntPQ) \<and>
   isTypeParameter tyT \<and>
   1 < length (conformanceRequirements (st_genericSig stIntPQ)) \<and>
   statesConformance (conformanceRequirements (st_genericSig stIntPQ) ! 1) tyT protoQ \<and>
   \<not> statesConformance (conformanceRequirements (st_genericSig stIntPQ) ! 0) tyT protoQ \<and>
   st_conformances stIntPQ ! 1 = Concrete confIntQ \<and>
   lookupConformance env0 (Some stIntPQ) tyT protoQ = Inr (Concrete confIntQ)"
proof -
  have 1: "length (st_conformances stIntPQ) = getNumConformanceRequirements (st_genericSig stIntPQ)"
    by (simp add: stIntPQ_def sigTPQ_def getNumConformanceRequirements_def)
  have 2: "isTypeParameter tyT" by (simp add: tyT_def)
  have 3: "1 < length (conformanceRequirements (st_genericSig stIntPQ))"
    by (simp add: stIntPQ_def sigTPQ_def conformanceRequirements_def)
  have 4: "statesConformance (conformanceRequirements (st_genericSig stIntPQ) ! 1) tyT protoQ"
    by (simp add: stIntPQ_def sigTPQ_def conformanceRequirements_def isEqual_def)
  have 5: "\<not> statesConformance (conformanceRequirements (st_genericSig stIntPQ) ! 0) tyT protoQ"
    by (simp add: stIntPQ_def sigTPQ_def conformanceRequirements_def isEqual_def protoP_def
        protoQ_def)
  then have 6: "\<forall>k<1. \<not> statesConformance (conformanceRequirements (st_genericSig stIntPQ) ! k)
                          tyT protoQ"
    by simp
  have 7: "st_conformances stIntPQ ! 1 = Concrete confIntQ" by (simp add: stIntPQ_def)
  from lookupConformance_fast_path [OF 1 2 3 4, of env0] 6
  have "lookupConformance env0 (Some stIntPQ) tyT protoQ = Inr (st_conformances stIntPQ ! 1)"
    by blast
  with 1 2 3 4 5 7 show ?thesis by simp
qed

subsection \<open>The path walk of lookupConformance\<close>

lemma lookupConformance_second_step:
  assumes "reachesSecondStep m sig type proto c"
  shows "\<exists>s2 path. lookupConformance env m type proto =
           walkPath env m sig type proto c (s2 # path)"
proof -
  from assms obtain s1 s2 path where
    p: "getConformancePath sig type proto = s1 # s2 # path"
    by (auto simp: reachesSecondStep_def split: list.splits)
  with assms have "lookupConformance env m type proto = walkPath env m sig type proto c (s2 # path)"
    by (simp add: reachesSecondStep_def lookupConformance_def isTypeParameter_not_archetype)
  then show ?thesis by blast
qed

text \<open>
  C2 (abstract step). A step of the path walk taken while the current conformance is
  abstract substitutes the queried type through the map and returns: an abstract
  conformance to the protocol when the substituted type has an error; the answer of
  the global lookup when it is not a type parameter, not existential, and not an
  archetype or an archetype with a superclass; an abstract conformance to the
  protocol otherwise. The same holds of \<open>lookupConformance\<close> when the first step of the
  path is found abstract in the signature.
\<close>

theorem walkPath_abstract_step:
  assumes "typeSubstMap env m [] type = Inr (Some substType)"
  shows "walkPath env m sig type proto (Abstract q) (step # path) =
           Inr (abstractStepResult env substType proto) \<and>
         (reachesSecondStep m sig type proto (Abstract q) \<longrightarrow>
            lookupConformance env m type proto = Inr (abstractStepResult env substType proto))"
proof -
  have w: "walkPath env m sig type proto (Abstract q) (s # p) =
           Inr (abstractStepResult env substType proto)" for s p
    using assms by (auto simp: abstractStepResult_def deref_def)
  moreover have "lookupConformance env m type proto = Inr (abstractStepResult env substType proto)"
    if "reachesSecondStep m sig type proto (Abstract q)"
    using lookupConformance_second_step [OF that, of env] w by auto
  ultimately show ?thesis by blast
qed

theorem walkPath_abstract_step_witness:
  "typeSubstMap envConcrete (Some stAbstract) [] tyTA = Inr (Some tyInt) \<and>
   reachesSecondStep (Some stAbstract) sigTA tyTA protoQ (Abstract protoP) \<and>
   abstractStepResult envConcrete tyInt protoQ = Concrete confIntQ \<and>
   lookupConformance envConcrete (Some stAbstract) tyTA protoQ = Inr (Concrete confIntQ)"
proof -
  have 1: "typeSubstMap envConcrete (Some stAbstract) [] tyTA = Inr (Some tyInt)"
    by (simp add: envConcrete_def)
  have 2: "reachesSecondStep (Some stAbstract) sigTA tyTA protoQ (Abstract protoP)"
    by (simp add: reachesSecondStep_def stAbstract_def sigTA_def getGenericSignature_def
        tyTA_def tyT_def getSignatureConformance_def getConformances_def isEqual_def
        protoQ_def protoP_def nth_checked_def)
  have 3: "abstractStepResult envConcrete tyInt protoQ = Concrete confIntQ"
    by (simp add: abstractStepResult_def envConcrete_def tyInt_def isExistentialType_def
        isArchetypeType_def)
  from walkPath_abstract_step [OF 1, of sigTA protoQ protoP] 1 2 3 show ?thesis by simp
qed



subsection \<open>The branches of lookupSubstitution\<close>

lemma findIndexIn_absent:
  "\<forall>p \<in> set ps. \<not> sameKey p g \<Longrightarrow> findIndexIn (getDepth g, getIndex g) ps = length ps"
  by (induction ps) (auto simp: sameKey_def)

lemma findIndexIn_first:
  assumes "i < length ps" and "sameKey (ps ! i) g" and "\<forall>j<i. \<not> sameKey (ps ! j) g"
  shows "findIndexIn (getDepth g, getIndex g) ps = i"
  using assms
proof (induction ps arbitrary: i)
  case Nil
  then show ?case by simp
next
  case (Cons p ps)
  show ?case
  proof (cases i)
    case 0
    with Cons.prems(2) show ?thesis by (simp add: sameKey_def)
  next
    case (Suc i')
    with Cons.prems(3) have "\<not> sameKey ((p # ps) ! 0) g" by blast
    then have np: "\<not> sameKey p g" by simp
    have "findIndexIn (getDepth g, getIndex g) ps = i'"
    proof (rule Cons.IH)
      from Cons.prems(1) Suc show "i' < length ps" by simp
      from Cons.prems(2) Suc show "sameKey (ps ! i') g" by simp
      from Cons.prems(3) Suc show "\<forall>j<i'. \<not> sameKey (ps ! j) g" by fastforce
    qed
    with np Suc show ?thesis by (auto simp: sameKey_def)
  qed
qed

text \<open>
  C4 (lookupSubstitution). In a non-empty map whose storage has one replacement type
  per generic parameter: an archetype that is not a root, or is neither a primary nor
  a pack archetype, has no replacement; a root primary or pack archetype is looked up
  as the canonical generic parameter of its interface type; a generic parameter whose
  (depth, index) key no parameter of the signature has, has no replacement; and a
  generic parameter whose key is first found at position \<open>i\<close> of the parameter list
  has the replacement type stored at position \<open>i\<close>.
\<close>

theorem lookupSubstitution_cases:
  assumes "length (st_replacementTypes st) = length (getGenericParams (st_genericSig st))"
  shows "(\<not> root \<or> (kind \<noteq> PrimaryArchetype \<and> kind \<noteq> PackArchetype) \<longrightarrow>
            lookupSubstitution (Some st) (ArchetypeType kind root interfaceType super) =
              Inr None) \<and>
         (root \<and> (kind = PrimaryArchetype \<or> kind = PackArchetype) \<and>
          getCanonicalType interfaceType = GenericTypeParamType g' \<longrightarrow>
            lookupSubstitution (Some st) (ArchetypeType kind root interfaceType super) =
              lookupSubstitution (Some st) (GenericTypeParamType g')) \<and>
         ((\<forall>p \<in> set (getGenericParams (st_genericSig st)). \<not> sameKey p g) \<longrightarrow>
            lookupSubstitution (Some st) (GenericTypeParamType g) = Inr None) \<and>
         (i < length (getGenericParams (st_genericSig st)) \<and>
          sameKey (getGenericParams (st_genericSig st) ! i) h \<and>
          (\<forall>j<i. \<not> sameKey (getGenericParams (st_genericSig st) ! j) h) \<longrightarrow>
            lookupSubstitution (Some st) (GenericTypeParamType h) =
              Inr (st_replacementTypes st ! i))"
proof -
  have ne: "\<not> empty_map (Some st)"
    by (simp add: empty_map_def getGenericSignature_def)
  have a: "lookupSubstitution (Some st) (ArchetypeType kind root interfaceType super) = Inr None"
    if "\<not> root \<or> (kind \<noteq> PrimaryArchetype \<and> kind \<noteq> PackArchetype)"
    using that ne by (auto simp: lookupSubstitution_def)
  have b: "lookupSubstitution (Some st) (ArchetypeType kind root interfaceType super) =
           lookupSubstitution (Some st) (GenericTypeParamType g')"
    if "root \<and> (kind = PrimaryArchetype \<or> kind = PackArchetype) \<and>
        getCanonicalType interfaceType = GenericTypeParamType g'"
    using that ne by (auto simp: lookupSubstitution_def)
  have c: "lookupSubstitution (Some st) (GenericTypeParamType g) = Inr None"
    if "\<forall>p \<in> set (getGenericParams (st_genericSig st)). \<not> sameKey p g"
    using ne findIndexIn_absent [OF that]
    by (simp add: lookupSubstitution_def lookupGenericParam_def getGenericSignature_def)
  have d: "lookupSubstitution (Some st) (GenericTypeParamType h) = Inr (st_replacementTypes st ! i)"
    if "i < length (getGenericParams (st_genericSig st)) \<and>
        sameKey (getGenericParams (st_genericSig st) ! i) h \<and>
        (\<forall>j<i. \<not> sameKey (getGenericParams (st_genericSig st) ! j) h)"
  proof -
    from that have "findIndexIn (getDepth h, getIndex h) (getGenericParams (st_genericSig st)) = i"
      by (intro findIndexIn_first) simp_all
    with that assms ne show ?thesis
      by (simp add: lookupSubstitution_def lookupGenericParam_def getGenericSignature_def
          getReplacementTypes_def nth_checked_def)
  qed
  from a b c d show ?thesis by blast
qed

theorem lookupSubstitution_cases_witness:
  "length (st_replacementTypes stTU) = length (getGenericParams (st_genericSig stTU)) \<and>
   lookupSubstitution (Some stTU) (ArchetypeType OpaqueTypeArchetype True tyT None) = Inr None \<and>
   lookupSubstitution (Some stTU) (ArchetypeType PrimaryArchetype False tyTA None) = Inr None \<and>
   getCanonicalType (GenericTypeParamType (GenericTypeParam (Some ''U'') False 0 1)) =
     GenericTypeParamType paramU \<and>
   lookupSubstitution (Some stTU)
     (ArchetypeType PrimaryArchetype True
        (GenericTypeParamType (GenericTypeParam (Some ''U'') False 0 1)) None) =
     lookupSubstitution (Some stTU) (GenericTypeParamType paramU) \<and>
   getGenericParams (st_genericSig stTU) = [paramT, paramU] \<and>
   \<not> sameKey paramT (GenericTypeParam None False 1 0) \<and>
   \<not> sameKey paramU (GenericTypeParam None False 1 0) \<and>
   lookupSubstitution (Some stTU) (GenericTypeParamType (GenericTypeParam None False 1 0)) =
     Inr None \<and>
   1 < length (getGenericParams (st_genericSig stTU)) \<and>
   sameKey (getGenericParams (st_genericSig stTU) ! 1) paramU \<and>
   \<not> sameKey (getGenericParams (st_genericSig stTU) ! 0) paramU \<and>
   lookupSubstitution (Some stTU) (GenericTypeParamType paramU) = Inr (Some tyString)"
proof -
  have 1: "length (st_replacementTypes stTU) = length (getGenericParams (st_genericSig stTU))"
    by (simp add: stTU_def sigTU_def)
  have 2: "getCanonicalType (GenericTypeParamType (GenericTypeParam (Some ''U'') False 0 1)) =
     GenericTypeParamType paramU"
    by (simp add: paramU_def)
  have ps: "getGenericParams (st_genericSig stTU) = [paramT, paramU]"
    by (simp add: stTU_def sigTU_def)
  have nT: "\<not> sameKey paramT (GenericTypeParam None False 1 0)"
    by (simp add: sameKey_def paramT_def)
  have nU: "\<not> sameKey paramU (GenericTypeParam None False 1 0)"
    by (simp add: sameKey_def paramU_def)
  have 3: "\<forall>p \<in> set (getGenericParams (st_genericSig stTU)).
      \<not> sameKey p (GenericTypeParam None False 1 0)"
    using nT nU by (simp add: ps)
  have 4: "1 < length (getGenericParams (st_genericSig stTU))"
    by (simp add: stTU_def sigTU_def)
  have 5: "sameKey (getGenericParams (st_genericSig stTU) ! 1) paramU"
    by (simp add: stTU_def sigTU_def sameKey_def)
  have 6: "\<not> sameKey (getGenericParams (st_genericSig stTU) ! 0) paramU"
    by (simp add: stTU_def sigTU_def sameKey_def paramT_def paramU_def)
  then have 7: "\<forall>j<1. \<not> sameKey (getGenericParams (st_genericSig stTU) ! j) paramU"
    by simp
  have 8: "st_replacementTypes stTU ! 1 = Some tyString"
    by (simp add: stTU_def)
  note opaque = lookupSubstitution_cases [OF 1, where root = True and kind = OpaqueTypeArchetype
      and interfaceType = tyT and super = None]
  note nonroot = lookupSubstitution_cases [OF 1, where root = False and kind = PrimaryArchetype
      and interfaceType = tyTA and super = None]
  note rewrite = lookupSubstitution_cases [OF 1, where root = True and kind = PrimaryArchetype
      and interfaceType = "GenericTypeParamType (GenericTypeParam (Some ''U'') False 0 1)"
      and g' = paramU and super = None]
  note absent = lookupSubstitution_cases [OF 1, where g = "GenericTypeParam None False 1 0"]
  note found = lookupSubstitution_cases [OF 1, where i = 1 and h = paramU]
  from opaque have o: "lookupSubstitution (Some stTU) (ArchetypeType OpaqueTypeArchetype True tyT None) = Inr None"
    by simp
  from nonroot have n: "lookupSubstitution (Some stTU) (ArchetypeType PrimaryArchetype False tyTA None) = Inr None"
    by simp
  from rewrite 2 have r: "lookupSubstitution (Some stTU)
     (ArchetypeType PrimaryArchetype True
        (GenericTypeParamType (GenericTypeParam (Some ''U'') False 0 1)) None) =
     lookupSubstitution (Some stTU) (GenericTypeParamType paramU)"
    by simp
  from absent 3 have a: "lookupSubstitution (Some stTU) (GenericTypeParamType (GenericTypeParam None False 1 0)) =
     Inr None"
    by blast
  from found 4 5 7 8 have f: "lookupSubstitution (Some stTU) (GenericTypeParamType paramU) = Inr (Some tyString)"
    by simp
  from 1 2 ps nT nU 4 5 6 o n r a f show ?thesis by blast
qed

subsection \<open>The identity test\<close>

lemma isIdentity_conformances_iff:
  "isIdentity_conformances confs = list_all identityConformance confs"
proof (induction confs)
  case Nil
  then show ?case by simp
next
  case (Cons c confs)
  show ?case
  proof (cases c)
    case (Pack t p cs)
    have "(length cs = 1 \<and> isAbstract (cs ! 0)) = identityConformance (Pack t p cs)"
    proof (cases cs)
      case Nil
      then show ?thesis by simp
    next
      case (Cons x xs)
      then show ?thesis by (cases x; cases xs) simp_all
    qed
    with Pack Cons.IH show ?thesis by simp
  qed (simp_all add: Cons.IH)
qed

lemma isIdentity_params_step:
  "isIdentity_params ((p, can) # ps) (r # rs) h =
     (if can
      then (case r of
              None \<Rightarrow> Inl NullDereference
            | Some t \<Rightarrow> isIdentity_params ps rs (h \<or> \<not> identityReplacement p r))
      else isIdentity_params ps rs h)"
  by (cases r)
    (auto simp: nth_checked_def deref_def identityReplacement_def wrappedParam_def Let_def)

lemma isIdentity_params_rest:
  "length rs = length ps \<Longrightarrow> isIdentity_params ps rs h = Inr (h', rest) \<Longrightarrow> rest = []"
proof (induction ps arbitrary: rs h)
  case Nil
  then show ?case by simp
next
  case (Cons pc ps)
  obtain p can where pc: "pc = (p, can)" by (cases pc)
  from Cons.prems(1) obtain r rs' where rs: "rs = r # rs'" and len: "length rs' = length ps"
    by (cases rs) auto
  from Cons.prems(2) Cons.IH [OF len] show ?case
    unfolding pc rs isIdentity_params_step
    by (auto split: if_splits option.splits)
qed

lemma isIdentity_params_sticky:
  "isIdentity_params ps rs True \<noteq> Inr (False, rest)"
proof (induction ps arbitrary: rs)
  case Nil
  then show ?case by simp
next
  case (Cons pc ps)
  obtain p can where pc: "pc = (p, can)" by (cases pc)
  show ?case
  proof (cases rs)
    case Nil
    then show ?thesis
      unfolding pc by (auto simp: nth_checked_def bindR_def split: sum.splits)
  next
    case (Cons r rs')
    with Cons.IH show ?thesis
      unfolding pc Cons isIdentity_params_step
      by (auto split: option.splits)
  qed
qed

lemma isIdentity_params_iff:
  "length rs = length ps \<Longrightarrow>
   (isIdentity_params ps rs h = Inr (False, [])) =
   (\<not> h \<and> (\<forall>i<length ps. snd (ps ! i) \<longrightarrow> identityReplacement (fst (ps ! i)) (rs ! i)))"
proof (induction ps arbitrary: rs h)
  case Nil
  then show ?case by auto
next
  case (Cons pc ps)
  obtain p can where pc: "pc = (p, can)" by (cases pc)
  from Cons.prems obtain r rs' where rs: "rs = r # rs'" and len: "length rs' = length ps"
    by (cases rs) auto
  have split: "(\<forall>i<length (pc # ps). snd ((pc # ps) ! i) \<longrightarrow>
                  identityReplacement (fst ((pc # ps) ! i)) (rs ! i)) =
               ((can \<longrightarrow> identityReplacement p r) \<and>
                (\<forall>i<length ps. snd (ps ! i) \<longrightarrow> identityReplacement (fst (ps ! i)) (rs' ! i)))"
    unfolding pc rs by (auto simp: All_less_Suc2)
  show ?case
  proof (cases can)
    case False
    with Cons.IH [OF len, of h] split show ?thesis
      unfolding pc rs isIdentity_params_step by simp
  next
    case True
    show ?thesis
    proof (cases r)
      case None
      with True split show ?thesis
        unfolding pc rs isIdentity_params_step by (simp add: identityReplacement_def)
    next
      case (Some t)
      show ?thesis
      proof (cases "identityReplacement p r")
        case False
        with True Some split isIdentity_params_sticky [of ps rs' "[]"] show ?thesis
          unfolding pc rs isIdentity_params_step by simp
      next
        case ok: True
        with True Some split Cons.IH [OF len, of h] show ?thesis
          unfolding pc rs isIdentity_params_step by simp
      qed
    qed
  qed
qed

lemma forEachParam_length: "length (forEachParam sig) = length (getGenericParams sig)"
  by (simp add: forEachParam_def)

lemma forEachParam_nth:
  "i < length (getGenericParams sig) \<Longrightarrow>
   forEachParam sig ! i = (getGenericParams sig ! i, paramIsCanonical sig i)"
  by (simp add: forEachParam_def)

text \<open>
  C6 (isIdentity). The empty map is the identity. A non-empty map whose storage has
  one replacement type per generic parameter is the identity exactly when every stored
  conformance is abstract, or a pack conformance with exactly one pattern conformance
  that is abstract, and at every parameter position that \<^verbatim>\<open>forEachParam\<close> reports as
  canonical the replacement type equals the parameter, wrapped in a singleton pack
  expansion when it is a parameter pack. Positions reported as not canonical do not
  matter.
\<close>

theorem isIdentity_iff:
  "isIdentity None = Inr True \<and>
   (length (st_replacementTypes st) = length (getGenericParams (st_genericSig st)) \<longrightarrow>
    (isIdentity (Some st) = Inr True) =
    (list_all identityConformance (st_conformances st) \<and>
     (\<forall>i<length (getGenericParams (st_genericSig st)).
        paramIsCanonical (st_genericSig st) i \<longrightarrow>
          identityReplacement (getGenericParams (st_genericSig st) ! i)
            (st_replacementTypes st ! i))))"
proof -
  have e: "isIdentity None = Inr True"
    by (simp add: isIdentity_def getGenericSignature_def)
  have n: "(isIdentity (Some st) = Inr True) =
    (list_all identityConformance (st_conformances st) \<and>
     (\<forall>i<length (getGenericParams (st_genericSig st)).
        paramIsCanonical (st_genericSig st) i \<longrightarrow>
          identityReplacement (getGenericParams (st_genericSig st) ! i)
            (st_replacementTypes st ! i)))"
    if len: "length (st_replacementTypes st) = length (getGenericParams (st_genericSig st))"
  proof -
    let ?sig = "st_genericSig st"
    let ?ps = "forEachParam ?sig"
    let ?rs = "st_replacementTypes st"
    from len have len': "length ?rs = length ?ps" by (simp add: forEachParam_length)
    have run: "(bindR (isIdentity_params ?ps ?rs False)
                 (\<lambda>(hasNonIdentityReplacement, replacements).
                    if replacements = [] then Inr (\<not> hasNonIdentityReplacement)
                    else Inl (AssertionFailure ''replacements.empty()'')) = Inr True) =
               (isIdentity_params ?ps ?rs False = Inr (False, []))"
    proof (cases "isIdentity_params ?ps ?rs False")
      case (Inl e)
      then show ?thesis by simp
    next
      case (Inr res)
      obtain h' rest where res: "res = (h', rest)" by (cases res)
      with Inr isIdentity_params_rest [OF len'] have "rest = []" by blast
      with Inr res show ?thesis by simp
    qed
    have params: "(isIdentity_params ?ps ?rs False = Inr (False, [])) =
          (\<forall>i<length (getGenericParams ?sig).
             paramIsCanonical ?sig i \<longrightarrow>
               identityReplacement (getGenericParams ?sig ! i) (?rs ! i))"
      using isIdentity_params_iff [OF len', of False]
      by (simp add: forEachParam_length forEachParam_nth)
    show ?thesis
      using run params
      by (simp add: isIdentity_def getGenericSignature_def getConformances_def
          getReplacementTypes_def isIdentity_conformances_iff)
  qed
  from e n show ?thesis by blast
qed

theorem isIdentity_iff_witness:
  "length (st_replacementTypes stIdentity) = length (getGenericParams (st_genericSig stIdentity)) \<and>
   list_all identityConformance (st_conformances stIdentity) \<and>
   identityReplacement paramT (st_replacementTypes stIdentity ! 0) \<and>
   identityReplacement paramEachU (st_replacementTypes stIdentity ! 1) \<and>
   \<not> paramIsCanonical (st_genericSig stIdentity) 2 \<and>
   isIdentity (Some stIdentity) = Inr True \<and>
   length (st_replacementTypes stNotIdentity) =
     length (getGenericParams (st_genericSig stNotIdentity)) \<and>
   paramIsCanonical (st_genericSig stNotIdentity) 0 \<and>
   \<not> identityReplacement paramT (st_replacementTypes stNotIdentity ! 0) \<and>
   isIdentity (Some stNotIdentity) \<noteq> Inr True"
proof -
  have 1: "length (st_replacementTypes stIdentity) =
           length (getGenericParams (st_genericSig stIdentity))"
    by (simp add: stIdentity_def sigTUV_def)
  have 2: "list_all identityConformance (st_conformances stIdentity)"
    by (simp add: stIdentity_def)
  have 3: "identityReplacement paramT (st_replacementTypes stIdentity ! 0)"
    by (simp add: stIdentity_def identityReplacement_def wrappedParam_def isEqual_def paramT_def)
  have 4: "identityReplacement paramEachU (st_replacementTypes stIdentity ! 1)"
    by (simp add: stIdentity_def identityReplacement_def wrappedParam_def isEqual_def
        paramEachU_def getSingletonPackExpansion_def)
  have 5: "\<not> paramIsCanonical (st_genericSig stIdentity) 2"
    by (simp add: stIdentity_def sigTUV_def)
  have ps: "getGenericParams (st_genericSig stIdentity) = [paramT, paramEachU, paramV]"
    by (simp add: stIdentity_def sigTUV_def)
  have all: "\<forall>i<length (getGenericParams (st_genericSig stIdentity)).
        paramIsCanonical (st_genericSig stIdentity) i \<longrightarrow>
          identityReplacement (getGenericParams (st_genericSig stIdentity) ! i)
            (st_replacementTypes stIdentity ! i)"
    using 3 4 5 unfolding ps by (auto simp: less_Suc_eq numeral_2_eq_2)
  from isIdentity_iff [of stIdentity] 1 2 all
  have 6: "isIdentity (Some stIdentity) = Inr True" by blast
  have 7: "length (st_replacementTypes stNotIdentity) =
           length (getGenericParams (st_genericSig stNotIdentity))"
    by (simp add: stNotIdentity_def stIdentity_def sigTUV_def)
  have 8: "paramIsCanonical (st_genericSig stNotIdentity) 0"
    by (simp add: stNotIdentity_def stIdentity_def sigTUV_def)
  have 9: "\<not> identityReplacement paramT (st_replacementTypes stNotIdentity ! 0)"
    by (simp add: stNotIdentity_def identityReplacement_def wrappedParam_def isEqual_def
        paramT_def tyInt_def)
  have ps': "getGenericParams (st_genericSig stNotIdentity) = [paramT, paramEachU, paramV]"
    by (simp add: stNotIdentity_def stIdentity_def sigTUV_def)
  have "\<not> (\<forall>i<length (getGenericParams (st_genericSig stNotIdentity)).
        paramIsCanonical (st_genericSig stNotIdentity) i \<longrightarrow>
          identityReplacement (getGenericParams (st_genericSig stNotIdentity) ! i)
            (st_replacementTypes stNotIdentity ! i))"
    using 8 9 unfolding ps' by auto
  with isIdentity_iff [of stNotIdentity] 7
  have 10: "isIdentity (Some stNotIdentity) \<noteq> Inr True" by blast
  from 1 2 3 4 5 6 7 8 9 10 show ?thesis by blast
qed

subsection \<open>The boundary of combineSubstitutionMaps\<close>

lemma get_replacementTypes_nth:
  "get_replacementTypes env IFS gps = Inr rs \<Longrightarrow>
   length rs = length gps \<and>
   (\<forall>i<length gps. typeSubstIFS env IFS (GenericTypeParamType (gps ! i)) = Inr (rs ! i))"
proof (induction gps arbitrary: rs)
  case Nil
  then show ?case by simp
next
  case (Cons gp gps)
  from Cons.prems obtain r rest where
    r: "typeSubstIFS env IFS (GenericTypeParamType gp) = Inr r"
    and rest: "get_replacementTypes env IFS gps = Inr rest"
    and rs: "rs = r # rest"
    by (auto simp: bindR_def split: sum.splits if_splits)
  from Cons.IH [OF rest] r rs show ?case
    by (auto simp: nth_Cons split: nat.splits)
qed

lemma SubstitutionMap_ctor_Inr:
  "SubstitutionMap_ctor env sig types confs = Inr m \<Longrightarrow>
   m = Some \<lparr> st_genericSig = sig,
              st_numConformanceRequirements = getNumConformanceRequirements sig,
              st_replacementTypes = types, st_conformances = confs \<rparr> \<and>
   length types = length (getGenericParams sig) \<and>
   length confs = getNumConformanceRequirements sig"
  by (auto simp: SubstitutionMap_ctor_def Storage_get_def Storage_ctor_def bindR_def
      split: if_splits sum.splits)

lemma SubstitutionMap_get_replacementTypes:
  assumes "SubstitutionMap_get env (Some sig) IFS = Inr m"
  shows "get_replacementTypes env IFS (getGenericParams sig) = Inr (getReplacementTypes m) \<and>
         getGenericSignature m = Some sig"
proof -
  from assms obtain rs cs where
    rs: "get_replacementTypes env IFS (getGenericParams sig) = Inr rs"
    and c: "SubstitutionMap_ctor env sig rs cs = Inr m"
    by (auto simp: SubstitutionMap_get_def bindR_def split: sum.splits)
  from SubstitutionMap_ctor_Inr [OF c] rs show ?thesis
    by (simp add: getReplacementTypes_def getGenericSignature_def)
qed

text \<open>
  C8 (combination boundary). \<open>combineSubstitutionMaps\<close> at a depth \<open>d\<close> builds its result
  by \<open>get\<close> from a type query that sends a generic parameter of depth less than \<open>d\<close>,
  unchanged, through the first map, and a generic parameter of depth at least \<open>d\<close>
  through the second map after replacing its depth by \<open>depth + d2 - d\<close>, keeping its
  index and pack-ness. When the type substitution primitive applies the query to a
  bare generic parameter, these are the replacement types of the resulting map.
\<close>

theorem combineSubstitutionMaps_AtDepth:
  "combineSubstitutionMaps env M1 M2 AtDepth d d2 (Some sig) =
     SubstitutionMap_get env (Some sig)
       \<lparr> subs = combine_subs env M1 M2 AtDepth d d2,
         lookupConformanceFn = combine_conformances env M1 M2 AtDepth d d2,
         getOptions = [] \<rparr> \<and>
   combine_subs env M1 M2 AtDepth d d2 (GenericTypeParamType gp) =
     (if getDepth gp < d then typeSubstMap env M1 [] (GenericTypeParamType gp)
      else typeSubstMap env M2 []
             (GenericTypeParamType
                (GenericTypeParam None (isParameterPack gp) (getDepth gp + d2 - d) (getIndex gp)))) \<and>
   ((\<forall>IFS g. typeSubstIFS env IFS (GenericTypeParamType g) = subs IFS (GenericTypeParamType g)) \<and>
    combineSubstitutionMaps env M1 M2 AtDepth d d2 (Some sig) = Inr m \<and>
    i < length (getGenericParams sig) \<and> p = getGenericParams sig ! i \<longrightarrow>
      Inr (getReplacementTypes m ! i) =
        (if getDepth p < d then typeSubstMap env M1 [] (GenericTypeParamType p)
         else typeSubstMap env M2 []
                (GenericTypeParamType
                   (GenericTypeParam None (isParameterPack p) (getDepth p + d2 - d) (getIndex p)))))"
proof -
  let ?IFS = "\<lparr> subs = combine_subs env M1 M2 AtDepth d d2,
         lookupConformanceFn = combine_conformances env M1 M2 AtDepth d d2,
         getOptions = [] \<rparr>"
  have a: "combineSubstitutionMaps env M1 M2 AtDepth d d2 (Some sig) =
           SubstitutionMap_get env (Some sig) ?IFS"
    by (simp add: combineSubstitutionMaps_def SubstitutionMap_get_fns_def)
  have b: "combine_subs env M1 M2 AtDepth d d2 (GenericTypeParamType g) =
     (if getDepth g < d then typeSubstMap env M1 [] (GenericTypeParamType g)
      else typeSubstMap env M2 []
             (GenericTypeParamType
                (GenericTypeParam None (isParameterPack g) (getDepth g + d2 - d) (getIndex g))))"
    for g
    by (simp add: combine_subs_def replaceGenericParameter_def getAsGenericTypeParam_def)
  have c: "Inr (getReplacementTypes m ! i) =
        (if getDepth p < d then typeSubstMap env M1 [] (GenericTypeParamType p)
         else typeSubstMap env M2 []
                (GenericTypeParamType
                   (GenericTypeParam None (isParameterPack p) (getDepth p + d2 - d) (getIndex p))))"
    if h: "(\<forall>IFS g. typeSubstIFS env IFS (GenericTypeParamType g) = subs IFS (GenericTypeParamType g)) \<and>
        combineSubstitutionMaps env M1 M2 AtDepth d d2 (Some sig) = Inr m \<and>
        i < length (getGenericParams sig) \<and> p = getGenericParams sig ! i"
  proof -
    from h a have "SubstitutionMap_get env (Some sig) ?IFS = Inr m" by simp
    from SubstitutionMap_get_replacementTypes [OF this]
    have "get_replacementTypes env ?IFS (getGenericParams sig) = Inr (getReplacementTypes m)"
      by simp
    from get_replacementTypes_nth [OF this] h
    have "typeSubstIFS env ?IFS (GenericTypeParamType p) = Inr (getReplacementTypes m ! i)"
      by simp
    moreover from h have "typeSubstIFS env ?IFS (GenericTypeParamType p) =
        combine_subs env M1 M2 AtDepth d d2 (GenericTypeParamType p)"
      by simp
    ultimately show ?thesis using b [of p] by simp
  qed
  from a b [of gp] c show ?thesis by blast
qed

theorem combineSubstitutionMaps_AtDepth_witness:
  "(\<forall>IFS g. typeSubstIFS env0 IFS (GenericTypeParamType g) = subs IFS (GenericTypeParamType g)) \<and>
   combineSubstitutionMaps env0 (Some stFirst) (Some stSecond) AtDepth 1 0 (Some sigTW) =
     Inr (Some \<lparr> st_genericSig = sigTW, st_numConformanceRequirements = 0,
                 st_replacementTypes = [Some tyInt, Some tyString], st_conformances = [] \<rparr>) \<and>
   getDepth paramT < 1 \<and>
   typeSubstMap env0 (Some stFirst) [] (GenericTypeParamType paramT) = Inr (Some tyInt) \<and>
   \<not> getDepth paramW < 1 \<and>
   typeSubstMap env0 (Some stSecond) []
     (GenericTypeParamType
        (GenericTypeParam None (isParameterPack paramW) (getDepth paramW + 0 - 1)
           (getIndex paramW))) = Inr (Some tyString)"
proof -
  have 1: "\<forall>IFS g. typeSubstIFS env0 IFS (GenericTypeParamType g) = subs IFS (GenericTypeParamType g)"
    by (simp add: env0_def)
  have 2: "getDepth paramT < 1" by (simp add: paramT_def)
  have 3: "\<not> getDepth paramW < 1" by (simp add: paramW_def)
  have 4: "typeSubstMap env0 (Some stFirst) [] (GenericTypeParamType paramT) = Inr (Some tyInt)"
    by (simp add: env0_def lookupSubstitution_def empty_map_def getGenericSignature_def
        lookupGenericParam_def stFirst_def sigT_def paramT_def getReplacementTypes_def
        nth_checked_def)
  have 5: "typeSubstMap env0 (Some stSecond) []
     (GenericTypeParamType
        (GenericTypeParam None (isParameterPack paramW) (getDepth paramW + 0 - 1)
           (getIndex paramW))) = Inr (Some tyString)"
    by (simp add: env0_def lookupSubstitution_def empty_map_def getGenericSignature_def
        lookupGenericParam_def stSecond_def sigT_def paramT_def paramW_def getReplacementTypes_def
        nth_checked_def)
  note inst = combineSubstitutionMaps_AtDepth [where env = env0 and ?M1.0 = "Some stFirst"
      and ?M2.0 = "Some stSecond" and d = 1 and ?d2.0 = 0 and sig = sigTW]
  have 6: "combineSubstitutionMaps env0 (Some stFirst) (Some stSecond) AtDepth 1 0 (Some sigTW) =
     Inr (Some \<lparr> st_genericSig = sigTW, st_numConformanceRequirements = 0,
                 st_replacementTypes = [Some tyInt, Some tyString], st_conformances = [] \<rparr>)"
    using inst [where gp = paramT] inst [where gp = paramW] 2 3 4 5
    by (simp add: SubstitutionMap_get_def SubstitutionMap_ctor_def Storage_get_def
        Storage_ctor_def sigTW_def env0_def getNumConformanceRequirements_def tyInt_def
        tyString_def isPackType_def verify_def paramT_def paramW_def)
  from 1 2 3 4 5 6 show ?thesis by blast
qed

subsection \<open>The frame of subst\<close>

lemma subst_replacementTypes_nth:
  "subst_replacementTypes env IFS ts = Inr ns \<Longrightarrow>
   length ns = length ts \<and>
   (\<forall>i<length ts. \<exists>t n. ts ! i = Some t \<and> typeSubstIFS env IFS t = Inr (Some n) \<and>
                          ns ! i = Some n \<and> isPackType n = isPackType t)"
proof (induction ts arbitrary: ns)
  case Nil
  then show ?case by simp
next
  case (Cons T ts)
  from Cons.prems obtain t n rest where
    T: "T = Some t" and n: "typeSubstIFS env IFS t = Inr (Some n)"
    and pk: "isPackType n = isPackType t"
    and rest: "subst_replacementTypes env IFS ts = Inr rest"
    and ns: "ns = Some n # rest"
    by (auto simp: bindR_def deref_def split: sum.splits option.splits if_splits)
  from Cons.IH [OF rest] T n pk ns show ?case
    by (auto simp: nth_Cons split: nat.splits)
qed

lemma subst_replacementTypes_total:
  "\<forall>T \<in> set ts. \<exists>t n. T = Some t \<and> typeSubstIFS env IFS t = Inr (Some n) \<and>
                        isPackType n = isPackType t \<Longrightarrow>
   \<exists>ns. subst_replacementTypes env IFS ts = Inr ns"
proof (induction ts)
  case Nil
  then show ?case by simp
next
  case (Cons T ts)
  then obtain t n where "T = Some t" "typeSubstIFS env IFS t = Inr (Some n)"
    "isPackType n = isPackType t"
    by auto
  moreover from Cons obtain rest where "subst_replacementTypes env IFS ts = Inr rest"
    by auto
  ultimately show ?case by (simp add: deref_def)
qed

lemma subst_replacementTypes_fault:
  assumes "Some t \<in> set ts" and "typeSubstIFS env IFS t = Inr (Some n)"
    and "isPackType n \<noteq> isPackType t"
  shows "\<exists>e. subst_replacementTypes env IFS ts = Inl e"
proof (cases "subst_replacementTypes env IFS ts")
  case (Inl e)
  then show ?thesis by blast
next
  case (Inr ns)
  from assms(1) obtain i where "i < length ts" "ts ! i = Some t"
    by (auto simp: in_set_conv_nth)
  with subst_replacementTypes_nth [OF Inr] assms(2,3) show ?thesis by fastforce
qed

lemma subst_conformances_length:
  "subst_conformances env m IFS reqs old = Inr cs \<Longrightarrow>
   length cs = length (filter isConformanceRequirement reqs) \<and> length old = length cs"
proof (induction reqs arbitrary: old cs)
  case Nil
  then show ?case by (simp split: if_splits)
next
  case (Cons r reqs)
  show ?case
  proof (cases r)
    case (Conformance F P)
    with Cons.prems obtain c rest where
      old: "old \<noteq> []" and rest: "subst_conformances env m IFS reqs (drop 1 old) = Inr rest"
      and cs: "cs = c # rest"
      by (auto simp: bindR_def nth_checked_def split: sum.splits if_splits)
    from Cons.IH [OF rest] old cs Conformance show ?thesis
      by (cases old) auto
  qed (use Cons in auto)
qed

lemma subst_conformances_total:
  assumes "\<forall>c. \<exists>r. conformanceSubst env c IFS = Inr r"
    and "\<forall>c T. \<exists>r. conformanceRefSubst env c T IFS = Inr r"
    and "\<forall>t. \<exists>T. typeSubstMap env m (getOptions IFS) t = Inr T"
  shows "length old = length (filter isConformanceRequirement reqs) \<Longrightarrow>
         \<exists>cs. subst_conformances env m IFS reqs old = Inr cs"
proof (induction reqs arbitrary: old)
  case Nil
  then show ?case by simp
next
  case (Cons r reqs)
  show ?case
  proof (cases r)
    case (Conformance F P)
    with Cons.prems obtain c old' where old: "old = c # old'"
      and len: "length old' = length (filter isConformanceRequirement reqs)"
      by (cases old) auto
    from Cons.IH [OF len] obtain rest where
      rest: "subst_conformances env m IFS reqs old' = Inr rest" by blast
    from assms(3) obtain T where T: "typeSubstMap env m (getOptions IFS) F = Inr T" by blast
    from assms(2) obtain r2 where r2: "conformanceRefSubst env c T IFS = Inr r2" by blast
    have "\<exists>new. (case c of
              Concrete cc \<Rightarrow>
                if \<not> shouldSubstituteOpaqueArchetypes IFS then conformanceSubst env cc IFS
                else bindR (typeSubstMap env m (getOptions IFS) F) (\<lambda>substType.
                       conformanceRefSubst env c substType IFS)
            | _ \<Rightarrow>
                bindR (typeSubstMap env m (getOptions IFS) F) (\<lambda>substType.
                  conformanceRefSubst env c substType IFS)) = Inr new"
    proof (cases c)
      case (Concrete cc)
      from assms(1) obtain r1 where "conformanceSubst env cc IFS = Inr r1" by blast
      with Concrete T r2 show ?thesis by simp
    qed (use T r2 in simp_all)
    then obtain new where "(case c of
              Concrete cc \<Rightarrow>
                if \<not> shouldSubstituteOpaqueArchetypes IFS then conformanceSubst env cc IFS
                else bindR (typeSubstMap env m (getOptions IFS) F) (\<lambda>substType.
                       conformanceRefSubst env c substType IFS)
            | _ \<Rightarrow>
                bindR (typeSubstMap env m (getOptions IFS) F) (\<lambda>substType.
                  conformanceRefSubst env c substType IFS)) = Inr new"
      by blast
    with rest old Conformance show ?thesis
      by (simp add: nth_checked_def)
  qed (use Cons in auto)
qed

text \<open>
  C10 (frame of subst). When \<open>subst\<close> of a non-empty map returns a map, that map is
  non-empty, has the signature of the original, and as many replacement types and as
  many conformances as the original. It does return a map when the storage has one
  replacement type per generic parameter and one conformance per conformance
  requirement, every stored replacement type is mapped by the capability to a type of
  the same pack-ness, the collaborators do not fault, and the verification pass is
  off.
\<close>

theorem subst_same_signature:
  "(SubstitutionMap_subst env (Some st) IFS = Inr m' \<longrightarrow>
      (\<exists>st'. m' = Some st' \<and> st_genericSig st' = st_genericSig st \<and>
             length (st_replacementTypes st') = length (st_replacementTypes st) \<and>
             length (st_conformances st') = length (st_conformances st))) \<and>
   (length (st_replacementTypes st) = length (getGenericParams (st_genericSig st)) \<and>
    length (st_conformances st) = getNumConformanceRequirements (st_genericSig st) \<and>
    (\<forall>T \<in> set (st_replacementTypes st).
       \<exists>t n. T = Some t \<and> typeSubstIFS env IFS t = Inr (Some n) \<and>
             isPackType n = isPackType t) \<and>
    (\<forall>c. \<exists>r. conformanceSubst env c IFS = Inr r) \<and>
    (\<forall>c T. \<exists>r. conformanceRefSubst env c T IFS = Inr r) \<and>
    (\<forall>t. \<exists>T. typeSubstMap env (Some st) (getOptions IFS) t = Inr T) \<and>
    \<not> VerifyAllSubstitutionMaps env \<longrightarrow>
      (\<exists>st'. SubstitutionMap_subst env (Some st) IFS = Inr (Some st')))"
proof -
  let ?sig = "st_genericSig st"
  have frame: "\<exists>st'. m' = Some st' \<and> st_genericSig st' = ?sig \<and>
             length (st_replacementTypes st') = length (st_replacementTypes st) \<and>
             length (st_conformances st') = length (st_conformances st)"
    if r: "SubstitutionMap_subst env (Some st) IFS = Inr m'"
  proof -
    from r obtain ns cs where
      ns: "subst_replacementTypes env IFS (st_replacementTypes st) = Inr ns"
      and cs: "subst_conformances env (Some st) IFS (getRequirements ?sig) (st_conformances st) =
               Inr cs"
      and c: "SubstitutionMap_ctor env ?sig ns cs = Inr m'"
      by (auto simp: SubstitutionMap_subst_def getGenericSignature_def getReplacementTypes_def
          getConformances_def bindR_def split: sum.splits)
    from SubstitutionMap_ctor_Inr [OF c] subst_replacementTypes_nth [OF ns]
      subst_conformances_length [OF cs]
    show ?thesis by simp
  qed
  have returns: "\<exists>st'. SubstitutionMap_subst env (Some st) IFS = Inr (Some st')"
    if h: "length (st_replacementTypes st) = length (getGenericParams ?sig) \<and>
    length (st_conformances st) = getNumConformanceRequirements ?sig \<and>
    (\<forall>T \<in> set (st_replacementTypes st).
       \<exists>t n. T = Some t \<and> typeSubstIFS env IFS t = Inr (Some n) \<and>
             isPackType n = isPackType t) \<and>
    (\<forall>c. \<exists>r. conformanceSubst env c IFS = Inr r) \<and>
    (\<forall>c T. \<exists>r. conformanceRefSubst env c T IFS = Inr r) \<and>
    (\<forall>t. \<exists>T. typeSubstMap env (Some st) (getOptions IFS) t = Inr T) \<and>
    \<not> VerifyAllSubstitutionMaps env"
  proof -
    from h subst_replacementTypes_total [of "st_replacementTypes st" env IFS]
    obtain ns where ns: "subst_replacementTypes env IFS (st_replacementTypes st) = Inr ns"
      by blast
    from h have "length (st_conformances st) =
                 length (filter isConformanceRequirement (getRequirements ?sig))"
      by (simp add: getNumConformanceRequirements_def)
    with h subst_conformances_total [of env IFS "Some st" "st_conformances st"
        "getRequirements ?sig"]
    obtain cs where
      cs: "subst_conformances env (Some st) IFS (getRequirements ?sig) (st_conformances st) =
           Inr cs"
      by blast
    from subst_replacementTypes_nth [OF ns] h
    have l1: "length ns = length (getGenericParams ?sig)" by simp
    from subst_conformances_length [OF cs]
    have l2: "length cs = getNumConformanceRequirements ?sig"
      by (simp add: getNumConformanceRequirements_def)
    from ns cs l1 l2 h show ?thesis
      by (simp add: SubstitutionMap_subst_def getGenericSignature_def getReplacementTypes_def
          getConformances_def SubstitutionMap_ctor_def Storage_get_def Storage_ctor_def)
  qed
  from frame returns show ?thesis by blast
qed

theorem subst_same_signature_witness:
  "length (st_replacementTypes stIntPQ) = length (getGenericParams (st_genericSig stIntPQ)) \<and>
   length (st_conformances stIntPQ) = getNumConformanceRequirements (st_genericSig stIntPQ) \<and>
   st_replacementTypes stIntPQ = [Some tyInt] \<and>
   typeSubstIFS envNoVerify ifsIdentity tyInt = Inr (Some tyInt) \<and>
   (\<forall>c. \<exists>r. conformanceSubst envNoVerify c ifsIdentity = Inr r) \<and>
   (\<forall>c T. \<exists>r. conformanceRefSubst envNoVerify c T ifsIdentity = Inr r) \<and>
   (\<forall>t. \<exists>T. typeSubstMap envNoVerify (Some stIntPQ) (getOptions ifsIdentity) t = Inr T) \<and>
   \<not> VerifyAllSubstitutionMaps envNoVerify \<and>
   (\<exists>st'. SubstitutionMap_subst envNoVerify (Some stIntPQ) ifsIdentity = Inr (Some st') \<and>
          st_genericSig st' = sigTPQ \<and>
          length (st_replacementTypes st') = 1 \<and> length (st_conformances st') = 2)"
proof -
  have 1: "length (st_replacementTypes stIntPQ) = length (getGenericParams (st_genericSig stIntPQ))"
    by (simp add: stIntPQ_def sigTPQ_def)
  have 2: "length (st_conformances stIntPQ) = getNumConformanceRequirements (st_genericSig stIntPQ)"
    by (simp add: stIntPQ_def sigTPQ_def getNumConformanceRequirements_def)
  have 3: "st_replacementTypes stIntPQ = [Some tyInt]"
    by (simp add: stIntPQ_def)
  have 4: "typeSubstIFS envNoVerify ifsIdentity tyInt = Inr (Some tyInt)"
    by (simp add: envNoVerify_def env0_def tyInt_def)
  have 5: "\<forall>c. \<exists>r. conformanceSubst envNoVerify c ifsIdentity = Inr r"
    by (simp add: envNoVerify_def env0_def)
  have 6: "\<forall>c T. \<exists>r. conformanceRefSubst envNoVerify c T ifsIdentity = Inr r"
    by (simp add: envNoVerify_def env0_def)
  have 7: "\<forall>t. \<exists>T. typeSubstMap envNoVerify (Some stIntPQ) (getOptions ifsIdentity) t = Inr T"
  proof
    fix t
    show "\<exists>T. typeSubstMap envNoVerify (Some stIntPQ) (getOptions ifsIdentity) t = Inr T"
      by (cases t)
        (simp_all add: envNoVerify_def env0_def lookupSubstitution_def empty_map_def
          getGenericSignature_def lookupGenericParam_def stIntPQ_def sigTPQ_def
          getReplacementTypes_def nth_checked_def Let_def)
  qed
  have 8: "\<not> VerifyAllSubstitutionMaps envNoVerify"
    by (simp add: envNoVerify_def)
  have 9: "\<forall>T \<in> set (st_replacementTypes stIntPQ).
       \<exists>t n. T = Some t \<and> typeSubstIFS envNoVerify ifsIdentity t = Inr (Some n) \<and>
             isPackType n = isPackType t"
    using 4 by (simp add: 3)
  note inst = subst_same_signature [where env = envNoVerify and st = stIntPQ
      and IFS = ifsIdentity]
  from inst 1 2 9 5 6 7 8 obtain st' where
    r: "SubstitutionMap_subst envNoVerify (Some stIntPQ) ifsIdentity = Inr (Some st')"
    by blast
  with inst [where m' = "Some st'"]
  have "st_genericSig st' = st_genericSig stIntPQ \<and>
        length (st_replacementTypes st') = length (st_replacementTypes stIntPQ) \<and>
        length (st_conformances st') = length (st_conformances stIntPQ)"
    by blast
  then have "st_genericSig st' = sigTPQ \<and>
          length (st_replacementTypes st') = 1 \<and> length (st_conformances st') = 2"
    by (simp add: stIntPQ_def)
  with r 1 2 3 4 5 6 7 8 show ?thesis by blast
qed

subsection \<open>Pack-ness of the replacement types\<close>

lemma get_replacementTypes_packness:
  "get_replacementTypes env IFS gps = Inr rs \<Longrightarrow> i < length gps \<Longrightarrow>
   packnessAgrees (gps ! i) (rs ! i)"
proof (induction gps arbitrary: rs i)
  case Nil
  then show ?case by simp
next
  case (Cons gp gps)
  from Cons.prems(1) obtain r rest where
    ok: "packnessAgrees gp r"
    and rest: "get_replacementTypes env IFS gps = Inr rest"
    and rs: "rs = r # rest"
    by (auto simp: bindR_def packnessAgrees_def split: sum.splits if_splits)
  show ?case
  proof (cases i)
    case 0
    with ok rs show ?thesis by simp
  next
    case (Suc j)
    with Cons.prems(2) Cons.IH [OF rest, of j] rs show ?thesis by simp
  qed
qed

lemma get_replacementTypes_fault:
  assumes "gp \<in> set gps" and "typeSubstIFS env IFS (GenericTypeParamType gp) = Inr r"
    and "\<not> packnessAgrees gp r"
  shows "\<exists>e. get_replacementTypes env IFS gps = Inl e"
proof (cases "get_replacementTypes env IFS gps")
  case (Inl e)
  then show ?thesis by blast
next
  case (Inr rs)
  from assms(1) obtain i where i: "i < length gps" "gps ! i = gp"
    by (auto simp: in_set_conv_nth)
  from get_replacementTypes_nth [OF Inr] i assms(2) have "rs ! i = r" by auto
  with get_replacementTypes_packness [OF Inr i(1)] i assms(3) show ?thesis by simp
qed

text \<open>
  C5, as the claim states it, fails for \<open>subst\<close>. A map for \<open><each U>\<close> built by the
  constructor with the non-pack replacement \<open>Int\<close> goes through \<open>subst\<close> with the
  identity capability without a fault, and the result still assigns \<open>Int\<close> to the
  parameter pack. And a map built by \<^verbatim>\<open>get\<close>, whose replacement for the pack is a
  non-pack archetype with an error (which the assertion of \<^verbatim>\<open>get\<close> lets through), goes
  through \<open>subst\<close> with a capability replacing the archetype by \<open>Int\<close> without a fault:
  the result assigns the non-pack, error-free \<open>Int\<close> to the parameter pack.
\<close>

theorem subst_pack_invariant_counterexample:
  "isParameterPack (getGenericParams sigEachU ! 0) \<and>
   \<not> isPackType tyInt \<and> \<not> hasError tyInt \<and>
   SubstitutionMap_ctor env0 sigEachU [Some tyInt] [] = Inr (Some (stEachU (Some tyInt))) \<and>
   SubstitutionMap_subst env0 (Some (stEachU (Some tyInt))) ifsIdentity =
     Inr (Some (stEachU (Some tyInt))) \<and>
   SubstitutionMap_get env0 (Some sigEachU) ifsErrorArchetype =
     Inr (Some (stEachU (Some tyErrorArchetype))) \<and>
   hasError tyErrorArchetype \<and>
   SubstitutionMap_subst env0 (Some (stEachU (Some tyErrorArchetype))) ifsInt =
     Inr (Some (stEachU (Some tyInt))) \<and>
   getReplacementTypes (Some (stEachU (Some tyInt))) ! 0 = Some tyInt"
  by (simp add: sigEachU_def paramEachU_def tyInt_def isPackType_def
      SubstitutionMap_ctor_def Storage_get_def Storage_ctor_def stEachU_def
      getNumConformanceRequirements_def env0_def verify_def
      SubstitutionMap_subst_def getGenericSignature_def getReplacementTypes_def
      getConformances_def ifsIdentity_def deref_def
      SubstitutionMap_get_def ifsErrorArchetype_def tyErrorArchetype_def ifsInt_def)

text \<open>
  C5, amended. For a map that \<^verbatim>\<open>get(signature, capability)\<close> returns, the replacement
  type at every position is null, or has an error, or is a pack type exactly when the
  generic parameter at that position is a parameter pack; and \<^verbatim>\<open>get\<close> signals a fault
  when the capability gives some parameter a replacement that breaks this. For a map
  that \<open>subst\<close> returns, the replacement type at every position is a pack type exactly
  when the replacement type of the existing map at that position is one, both being
  non-null; and \<open>subst\<close> signals a fault when the capability changes the pack-ness of
  a stored replacement type.
\<close>

theorem pack_invariant_get_subst:
  "(SubstitutionMap_get env (Some sig) IFS = Inr m \<and> i < length (getGenericParams sig) \<longrightarrow>
      length (getReplacementTypes m) = length (getGenericParams sig) \<and>
      packnessAgrees (getGenericParams sig ! i) (getReplacementTypes m ! i)) \<and>
   (gp \<in> set (getGenericParams sig) \<and>
    typeSubstIFS env IFS (GenericTypeParamType gp) = Inr r \<and> \<not> packnessAgrees gp r \<longrightarrow>
      (\<exists>e. SubstitutionMap_get env (Some sig) IFS = Inl e)) \<and>
   (SubstitutionMap_subst env (Some st) IFS' = Inr m' \<and> j < length (st_replacementTypes st) \<longrightarrow>
      length (getReplacementTypes m') = length (st_replacementTypes st) \<and>
      (\<exists>t n. st_replacementTypes st ! j = Some t \<and> getReplacementTypes m' ! j = Some n \<and>
             isPackType n = isPackType t)) \<and>
   (Some t \<in> set (st_replacementTypes st) \<and> typeSubstIFS env IFS' t = Inr (Some n) \<and>
    isPackType n \<noteq> isPackType t \<longrightarrow>
      (\<exists>e. SubstitutionMap_subst env (Some st) IFS' = Inl e))"
proof -
  have g1: "length (getReplacementTypes m) = length (getGenericParams sig) \<and>
      packnessAgrees (getGenericParams sig ! i) (getReplacementTypes m ! i)"
    if h: "SubstitutionMap_get env (Some sig) IFS = Inr m \<and> i < length (getGenericParams sig)"
  proof -
    from h SubstitutionMap_get_replacementTypes [of env sig IFS m]
    have rs: "get_replacementTypes env IFS (getGenericParams sig) = Inr (getReplacementTypes m)"
      by simp
    from get_replacementTypes_nth [OF rs] get_replacementTypes_packness [OF rs, of i] h
    show ?thesis by simp
  qed
  have g2: "\<exists>e. SubstitutionMap_get env (Some sig) IFS = Inl e"
    if h: "gp \<in> set (getGenericParams sig) \<and>
      typeSubstIFS env IFS (GenericTypeParamType gp) = Inr r \<and> \<not> packnessAgrees gp r"
  proof -
    from h get_replacementTypes_fault [of gp "getGenericParams sig" env IFS r]
    obtain e where "get_replacementTypes env IFS (getGenericParams sig) = Inl e" by blast
    then show ?thesis by (simp add: SubstitutionMap_get_def)
  qed
  have s1: "length (getReplacementTypes m') = length (st_replacementTypes st) \<and>
      (\<exists>t n. st_replacementTypes st ! j = Some t \<and> getReplacementTypes m' ! j = Some n \<and>
             isPackType n = isPackType t)"
    if h: "SubstitutionMap_subst env (Some st) IFS' = Inr m' \<and> j < length (st_replacementTypes st)"
  proof -
    from h obtain ns cs where
      ns: "subst_replacementTypes env IFS' (st_replacementTypes st) = Inr ns"
      and c: "SubstitutionMap_ctor env (st_genericSig st) ns cs = Inr m'"
      by (auto simp: SubstitutionMap_subst_def getGenericSignature_def getReplacementTypes_def
          getConformances_def bindR_def split: sum.splits)
    from SubstitutionMap_ctor_Inr [OF c] have "getReplacementTypes m' = ns"
      by (simp add: getReplacementTypes_def)
    with subst_replacementTypes_nth [OF ns] h show ?thesis by auto
  qed
  have s2: "\<exists>e. SubstitutionMap_subst env (Some st) IFS' = Inl e"
    if h: "Some t \<in> set (st_replacementTypes st) \<and> typeSubstIFS env IFS' t = Inr (Some n) \<and>
      isPackType n \<noteq> isPackType t"
  proof -
    from h subst_replacementTypes_fault [of t "st_replacementTypes st" env IFS' n]
    obtain e where "subst_replacementTypes env IFS' (st_replacementTypes st) = Inl e" by blast
    then show ?thesis
      by (simp add: SubstitutionMap_subst_def getGenericSignature_def getReplacementTypes_def)
  qed
  from g1 g2 s1 s2 show ?thesis by blast
qed

theorem pack_invariant_get_subst_witness:
  "SubstitutionMap_get env0 (Some sigEachU) ifsErrorArchetype =
     Inr (Some (stEachU (Some tyErrorArchetype))) \<and>
   0 < length (getGenericParams sigEachU) \<and>
   packnessAgrees (getGenericParams sigEachU ! 0)
     (getReplacementTypes (Some (stEachU (Some tyErrorArchetype))) ! 0) \<and>
   paramEachU \<in> set (getGenericParams sigEachU) \<and>
   typeSubstIFS env0 ifsInt (GenericTypeParamType paramEachU) = Inr (Some tyInt) \<and>
   \<not> packnessAgrees paramEachU (Some tyInt) \<and>
   (\<exists>e. SubstitutionMap_get env0 (Some sigEachU) ifsInt = Inl e) \<and>
   SubstitutionMap_subst env0 (Some (stEachU (Some tyErrorArchetype))) ifsInt =
     Inr (Some (stEachU (Some tyInt))) \<and>
   0 < length (st_replacementTypes (stEachU (Some tyErrorArchetype))) \<and>
   isPackType tyInt = isPackType tyErrorArchetype \<and>
   length (getReplacementTypes (Some (stEachU (Some tyInt)))) =
     length (st_replacementTypes (stEachU (Some tyErrorArchetype))) \<and>
   Some tyErrorArchetype \<in> set (st_replacementTypes (stEachU (Some tyErrorArchetype))) \<and>
   typeSubstIFS env0 ifsEmptyPack tyErrorArchetype = Inr (Some (PackType [])) \<and>
   isPackType (PackType []) \<noteq> isPackType tyErrorArchetype \<and>
   (\<exists>e. SubstitutionMap_subst env0 (Some (stEachU (Some tyErrorArchetype))) ifsEmptyPack =
          Inl e)"
proof -
  have 1: "SubstitutionMap_get env0 (Some sigEachU) ifsErrorArchetype =
     Inr (Some (stEachU (Some tyErrorArchetype)))"
    by (simp add: sigEachU_def paramEachU_def
        SubstitutionMap_ctor_def Storage_get_def Storage_ctor_def stEachU_def
        getNumConformanceRequirements_def env0_def verify_def
        SubstitutionMap_get_def ifsErrorArchetype_def tyErrorArchetype_def)
  have 2: "0 < length (getGenericParams sigEachU)"
    by (simp add: sigEachU_def)
  have 3: "paramEachU \<in> set (getGenericParams sigEachU)"
    by (simp add: sigEachU_def)
  have 4: "typeSubstIFS env0 ifsInt (GenericTypeParamType paramEachU) = Inr (Some tyInt)"
    by (simp add: env0_def ifsInt_def)
  have 5: "\<not> packnessAgrees paramEachU (Some tyInt)"
    by (simp add: packnessAgrees_def paramEachU_def tyInt_def isPackType_def)
  have 6: "SubstitutionMap_subst env0 (Some (stEachU (Some tyErrorArchetype))) ifsInt =
     Inr (Some (stEachU (Some tyInt)))"
    by (simp add: sigEachU_def paramEachU_def tyInt_def isPackType_def
        SubstitutionMap_ctor_def Storage_get_def Storage_ctor_def stEachU_def
        getNumConformanceRequirements_def env0_def verify_def
        SubstitutionMap_subst_def getGenericSignature_def getReplacementTypes_def
        getConformances_def deref_def tyErrorArchetype_def ifsInt_def)
  have 7: "0 < length (st_replacementTypes (stEachU (Some tyErrorArchetype)))"
    by (simp add: stEachU_def)
  have 8: "Some tyErrorArchetype \<in> set (st_replacementTypes (stEachU (Some tyErrorArchetype)))"
    by (simp add: stEachU_def)
  have 9: "typeSubstIFS env0 ifsEmptyPack tyErrorArchetype = Inr (Some (PackType []))"
    by (simp add: env0_def ifsEmptyPack_def tyErrorArchetype_def)
  have 10: "isPackType (PackType []) \<noteq> isPackType tyErrorArchetype"
    by (simp add: isPackType_def tyErrorArchetype_def)
  have 11: "isPackType tyInt = isPackType tyErrorArchetype"
    by (simp add: isPackType_def tyErrorArchetype_def tyInt_def)
  note g1 = pack_invariant_get_subst [where env = env0 and sig = sigEachU
      and IFS = ifsErrorArchetype and m = "Some (stEachU (Some tyErrorArchetype))" and i = 0]
  note g2 = pack_invariant_get_subst [where env = env0 and sig = sigEachU
      and IFS = ifsInt and gp = paramEachU and r = "Some tyInt"]
  note s1 = pack_invariant_get_subst [where env = env0
      and st = "stEachU (Some tyErrorArchetype)" and IFS' = ifsInt
      and m' = "Some (stEachU (Some tyInt))" and j = 0]
  note s2 = pack_invariant_get_subst [where env = env0
      and st = "stEachU (Some tyErrorArchetype)" and IFS' = ifsEmptyPack
      and t = tyErrorArchetype and n = "PackType []"]
  from g1 1 2 have a: "packnessAgrees (getGenericParams sigEachU ! 0)
     (getReplacementTypes (Some (stEachU (Some tyErrorArchetype))) ! 0)"
    by blast
  from g2 3 4 5 have b: "\<exists>e. SubstitutionMap_get env0 (Some sigEachU) ifsInt = Inl e"
    by blast
  from s2 8 9 10
  have c: "\<exists>e. SubstitutionMap_subst env0 (Some (stEachU (Some tyErrorArchetype))) ifsEmptyPack =
          Inl e"
    by blast
  from s1 6 7
  have d: "length (getReplacementTypes (Some (stEachU (Some tyInt)))) =
     length (st_replacementTypes (stEachU (Some tyErrorArchetype)))"
    by blast
  from 1 2 a 3 4 5 b 6 7 11 d 8 9 10 c show ?thesis by blast
qed

subsection \<open>What verify asserts\<close>

lemma verify_loop_step:
  assumes "typeSubstMap env m [] F = Inr (Some s)"
    and "k < length (getConformances m)"
  shows "verify_loop env m (Conformance F P # reqs) k =
           (if fullyConcrete s \<and> \<not> verifiedConformance env s (getConformances m ! k)
            then Inl (case getConformances m ! k of
                        Concrete c \<Rightarrow>
                          if \<not> isEqual s (witnessType env c s)
                          then AssertionFailure ''conformance should match corresponding type''
                          else AssertionFailure
                                 ''Existential type cannot have normal conformance''
                      | _ \<Rightarrow> AssertionFailure ''Conformance should be concrete'')
            else verify_loop env m reqs (Suc k))"
proof (cases "fullyConcrete s")
  case False
  with assms show ?thesis
    by (auto simp: deref_def fullyConcrete_def)
next
  case True
  then have skip: "\<not> (isTypeParameter s \<or> isArchetypeType s \<or> isTypeVariableOrMember s \<or>
                      isUnresolvedType s \<or> hasError s)"
    by (simp add: fullyConcrete_def)
  show ?thesis
  proof (cases "getConformances m ! k")
    case (Concrete c)
    with assms True skip show ?thesis
      by (simp add: deref_def nth_checked_def verifiedConformance_def witnessType_def Let_def)
  qed (use assms True skip in
        \<open>simp_all add: deref_def nth_checked_def verifiedConformance_def\<close>)
qed

lemma verify_loop_iff:
  assumes "\<forall>F P. Conformance F P \<in> set reqs \<longrightarrow>
             (\<exists>s. typeSubstMap env m [] F = Inr (Some s))"
    and "k + length (filter isConformanceRequirement reqs) \<le> length (getConformances m)"
  shows "(verify_loop env m reqs k = Inr ()) =
         (\<forall>i<length (filter isConformanceRequirement reqs). \<forall>F P s.
            filter isConformanceRequirement reqs ! i = Conformance F P \<and>
            typeSubstMap env m [] F = Inr (Some s) \<and> fullyConcrete s \<longrightarrow>
              verifiedConformance env s (getConformances m ! (k + i)))"
  using assms
proof (induction reqs arbitrary: k)
  case Nil
  then show ?case by simp
next
  case (Cons r reqs)
  have sub': "\<forall>F P. Conformance F P \<in> set reqs \<longrightarrow>
             (\<exists>s. typeSubstMap env m [] F = Inr (Some s))"
    using Cons.prems(1) by auto
  show ?case
  proof (cases r)
    case (Conformance F P)
    with Cons.prems(1) obtain s where s: "typeSubstMap env m [] F = Inr (Some s)"
      by auto
    from Cons.prems(2) Conformance have k: "k < length (getConformances m)"
      and len': "Suc k + length (filter isConformanceRequirement reqs) \<le>
                 length (getConformances m)"
      by simp_all
    let ?crs = "filter isConformanceRequirement reqs"
    let ?Q = "\<lambda>j i. \<forall>F P s. ?crs ! i = Conformance F P \<and>
            typeSubstMap env m [] F = Inr (Some s) \<and> fullyConcrete s \<longrightarrow>
              verifiedConformance env s (getConformances m ! (j + i))"
    have IH: "(verify_loop env m reqs (Suc k) = Inr ()) = (\<forall>i<length ?crs. ?Q (Suc k) i)"
      by (rule Cons.IH [OF sub' len'])
    have split: "(\<forall>i<length (filter isConformanceRequirement (r # reqs)). \<forall>F P s.
            filter isConformanceRequirement (r # reqs) ! i = Conformance F P \<and>
            typeSubstMap env m [] F = Inr (Some s) \<and> fullyConcrete s \<longrightarrow>
              verifiedConformance env s (getConformances m ! (k + i))) =
          ((fullyConcrete s \<longrightarrow> verifiedConformance env s (getConformances m ! k)) \<and>
           (\<forall>i<length ?crs. ?Q (Suc k) i))"
      using Conformance s by (simp add: All_less_Suc2)
    have lhs: "(verify_loop env m (r # reqs) k = Inr ()) =
          ((fullyConcrete s \<longrightarrow> verifiedConformance env s (getConformances m ! k)) \<and>
           verify_loop env m reqs (Suc k) = Inr ())"
      unfolding Conformance verify_loop_step [OF s k] by auto
    show ?thesis
      by (simp only: lhs split IH)
  next
    case (Superclass a b)
    with Cons.IH [OF sub', of k] Cons.prems(2) show ?thesis by simp
  next
    case (SameType a b)
    with Cons.IH [OF sub', of k] Cons.prems(2) show ?thesis by simp
  next
    case (Layout a b)
    with Cons.IH [OF sub', of k] Cons.prems(2) show ?thesis by simp
  next
    case (SameShape a b)
    with Cons.IH [OF sub', of k] Cons.prems(2) show ?thesis by simp
  qed
qed

text \<open>
  C9, as the claim states it, fails. With \<open>T := Int\<close>, a fully concrete type, and an
  invalid stored conformance, \<open>verify\<close> passes although the stored conformance is not
  concrete. With \<open>T\<close> replaced by an unbound generic type and the stored witness of
  \<open>Int : P\<close>, \<open>verify\<close> passes although the type of the witness is not the substituted
  type.
\<close>

theorem verify_counterexample:
  "typeSubstMap env0 (Some stInvalid) [] tyT = Inr (Some tyInt) \<and>
   fullyConcrete tyInt \<and>
   getRequirements (st_genericSig stInvalid) = [Conformance tyT protoP] \<and>
   st_conformances stInvalid = [Invalid] \<and>
   \<not> isConcrete Invalid \<and>
   verify env0 (Some stInvalid) = Inr () \<and>
   typeSubstMap env0 (Some stUnbound) [] tyT = Inr (Some (UnboundGenericType ''G'')) \<and>
   fullyConcrete (UnboundGenericType ''G'') \<and>
   getRequirements (st_genericSig stUnbound) = [Conformance tyT protoP] \<and>
   st_conformances stUnbound = [Concrete confIntP] \<and>
   \<not> isEqual (UnboundGenericType ''G'') (witnessType env0 confIntP (UnboundGenericType ''G'')) \<and>
   verify env0 (Some stUnbound) = Inr ()"
  by (simp add: env0_def stInvalid_def stUnbound_def sigTA_def tyT_def tyInt_def paramT_def
      lookupSubstitution_def empty_map_def getGenericSignature_def lookupGenericParam_def
      getReplacementTypes_def getConformances_def nth_checked_def deref_def
      fullyConcrete_def isArchetypeType_def isUnresolvedType_def isUnboundGenericType_def
      verify_def witnessType_def confIntP_def isEqual_def)

text \<open>
  C9, amended. Take a non-empty map whose storage has one conformance per conformance
  requirement, and let the substitution primitive give a type for the dependent type
  of every conformance requirement. Then \<open>verify\<close> passes exactly when, for every
  conformance requirement whose substituted dependent type is fully concrete, the
  conformance stored at its position is invalid, or is concrete and, unless the
  substituted type is an unbound generic type, the type of the witness (mapped into
  the context of the witness when it mentions type parameters and the substituted
  type does not) equals the substituted type and the witness is a self-conformance
  when the substituted type is existential.
\<close>

theorem verify_iff:
  assumes "length (st_conformances st) = getNumConformanceRequirements (st_genericSig st)"
    and "\<forall>F P. Conformance F P \<in> set (getRequirements (st_genericSig st)) \<longrightarrow>
           (\<exists>s. typeSubstMap env (Some st) [] F = Inr (Some s))"
  shows "(verify env (Some st) = Inr ()) =
         (\<forall>i<length (conformanceRequirements (st_genericSig st)). \<forall>F P s.
            conformanceRequirements (st_genericSig st) ! i = Conformance F P \<and>
            typeSubstMap env (Some st) [] F = Inr (Some s) \<and> fullyConcrete s \<longrightarrow>
              verifiedConformance env s (st_conformances st ! i))"
proof -
  from assms(1)
  have len: "0 + length (filter isConformanceRequirement (getRequirements (st_genericSig st)))
             \<le> length (getConformances (Some st))"
    by (simp add: getNumConformanceRequirements_def getConformances_def)
  from verify_loop_iff [OF assms(2) len] show ?thesis
    by (simp add: verify_def conformanceRequirements_def getConformances_def)
qed

theorem verify_iff_witness:
  "length (st_conformances stIntPQ) = getNumConformanceRequirements (st_genericSig stIntPQ) \<and>
   conformanceRequirements (st_genericSig stIntPQ) =
     [Conformance tyT protoP, Conformance tyT protoQ] \<and>
   typeSubstMap env0 (Some stIntPQ) [] tyT = Inr (Some tyInt) \<and>
   fullyConcrete tyInt \<and>
   verifiedConformance env0 tyInt (st_conformances stIntPQ ! 0) \<and>
   verifiedConformance env0 tyInt (st_conformances stIntPQ ! 1) \<and>
   verify env0 (Some stIntPQ) = Inr () \<and>
   length (st_conformances stAbstract) = getNumConformanceRequirements (st_genericSig stAbstract) \<and>
   conformanceRequirements (st_genericSig stAbstract) = [Conformance tyT protoP] \<and>
   typeSubstMap env0 (Some stAbstract) [] tyT = Inr (Some tyInt) \<and>
   \<not> verifiedConformance env0 tyInt (st_conformances stAbstract ! 0) \<and>
   verify env0 (Some stAbstract) \<noteq> Inr ()"
proof -
  have 1: "length (st_conformances stIntPQ) = getNumConformanceRequirements (st_genericSig stIntPQ)"
    by (simp add: stIntPQ_def sigTPQ_def getNumConformanceRequirements_def)
  have 2: "conformanceRequirements (st_genericSig stIntPQ) =
     [Conformance tyT protoP, Conformance tyT protoQ]"
    by (simp add: stIntPQ_def sigTPQ_def conformanceRequirements_def)
  have 3: "typeSubstMap env0 (Some stIntPQ) [] tyT = Inr (Some tyInt)"
    by (simp add: env0_def stIntPQ_def sigTPQ_def tyT_def paramT_def
        lookupSubstitution_def empty_map_def getGenericSignature_def lookupGenericParam_def
        getReplacementTypes_def nth_checked_def)
  have 4: "fullyConcrete tyInt"
    by (simp add: tyInt_def fullyConcrete_def isArchetypeType_def isUnresolvedType_def)
  have 5: "verifiedConformance env0 tyInt (st_conformances stIntPQ ! 0)"
    by (simp add: verifiedConformance_def stIntPQ_def tyInt_def isUnboundGenericType_def
        witnessType_def confIntP_def isEqual_def isExistentialType_def)
  have 6: "verifiedConformance env0 tyInt (st_conformances stIntPQ ! 1)"
    by (simp add: verifiedConformance_def stIntPQ_def tyInt_def isUnboundGenericType_def
        witnessType_def confIntQ_def isEqual_def isExistentialType_def)
  have sub: "\<forall>F P. Conformance F P \<in> set (getRequirements (st_genericSig stIntPQ)) \<longrightarrow>
           (\<exists>s. typeSubstMap env0 (Some stIntPQ) [] F = Inr (Some s))"
    using 3 by (simp add: stIntPQ_def sigTPQ_def)
  have all: "\<forall>i<length (conformanceRequirements (st_genericSig stIntPQ)). \<forall>F P s.
            conformanceRequirements (st_genericSig stIntPQ) ! i = Conformance F P \<and>
            typeSubstMap env0 (Some stIntPQ) [] F = Inr (Some s) \<and> fullyConcrete s \<longrightarrow>
              verifiedConformance env0 s (st_conformances stIntPQ ! i)"
    unfolding 2 using 3 5 6 by (auto simp: less_Suc_eq)
  from verify_iff [OF 1 sub] all have 7: "verify env0 (Some stIntPQ) = Inr ()"
    by blast
  have 8: "length (st_conformances stAbstract) =
           getNumConformanceRequirements (st_genericSig stAbstract)"
    by (simp add: stAbstract_def sigTA_def getNumConformanceRequirements_def)
  have 9: "conformanceRequirements (st_genericSig stAbstract) = [Conformance tyT protoP]"
    by (simp add: stAbstract_def sigTA_def conformanceRequirements_def)
  have 10: "typeSubstMap env0 (Some stAbstract) [] tyT = Inr (Some tyInt)"
    by (simp add: env0_def stAbstract_def sigTA_def tyT_def paramT_def
        lookupSubstitution_def empty_map_def getGenericSignature_def lookupGenericParam_def
        getReplacementTypes_def nth_checked_def)
  have 11: "\<not> verifiedConformance env0 tyInt (st_conformances stAbstract ! 0)"
    by (simp add: verifiedConformance_def stAbstract_def)
  have sub': "\<forall>F P. Conformance F P \<in> set (getRequirements (st_genericSig stAbstract)) \<longrightarrow>
           (\<exists>s. typeSubstMap env0 (Some stAbstract) [] F = Inr (Some s))"
    using 10 by (simp add: stAbstract_def sigTA_def)
  have "\<not> (\<forall>i<length (conformanceRequirements (st_genericSig stAbstract)). \<forall>F P s.
            conformanceRequirements (st_genericSig stAbstract) ! i = Conformance F P \<and>
            typeSubstMap env0 (Some stAbstract) [] F = Inr (Some s) \<and> fullyConcrete s \<longrightarrow>
              verifiedConformance env0 s (st_conformances stAbstract ! i))"
    unfolding 9 using 4 10 11 by auto
  with verify_iff [OF 8 sub'] have 12: "verify env0 (Some stAbstract) \<noteq> Inr ()"
    by blast
  from 1 2 3 4 5 6 7 8 9 10 11 12 show ?thesis by blast
qed

end
